theory Spec2Isabelle
  imports Main
begin

section \<open>Failures\<close>

text \<open>
  Every way the C++ stops instead of returning is a value of \<open>error\<close>:
  \<^item> \<open>AssertionFailure\<close>: a failed \<^verbatim>\<open>revng_assert\<close>, a failed LLVM \<^verbatim>\<open>assert\<close>, or a
    failed \<^verbatim>\<open>llvm::cast<>\<close> (whose check is an \<^verbatim>\<open>assert\<close>);
  \<^item> \<open>Abort\<close>: \<^verbatim>\<open>revng_abort\<close> and \<^verbatim>\<open>revng_unreachable\<close>;
  \<^item> \<open>OutOfRange\<close>: \<^verbatim>\<open>std::map::at\<close> on a missing key, an operand index past the end;
  \<^item> \<open>NullDereference\<close>: a member call through a null type pointer.
\<close>

datatype error = AssertionFailure | Abort | OutOfRange | NullDereference

definition bind :: "error + 'a \<Rightarrow> ('a \<Rightarrow> error + 'b) \<Rightarrow> error + 'b" where
  "bind m f = (case m of Inl e \<Rightarrow> Inl e | Inr x \<Rightarrow> f x)"

definition revng_assert :: "bool \<Rightarrow> error + unit" where
  "revng_assert c = (if c then Inr () else Inl AssertionFailure)"

section \<open>The LLVM IR the decompiler reads\<close>

datatype LLVMType =
    VoidTy
  | IntegerTy nat
  | PointerTy LLVMType
  | StructTy "LLVMType list"
  | FunctionTy
  | FloatTy
  | LabelTy

datatype Predicate =
    ICMP_EQ | ICMP_NE | ICMP_UGT | ICMP_UGE | ICMP_ULT | ICMP_ULE
  | ICMP_SGT | ICMP_SGE | ICMP_SLT | ICMP_SLE | BAD_ICMP_PREDICATE

text \<open>
  The opcodes the modelled functions name, and a few of those they reject. A compare
  instruction carries its predicate, so \<open>ICmp\<close> takes it as an argument.
\<close>

datatype Opcode =
    Ret | Br | Switch | Unreachable
  | Add | Sub | Mul | UDiv | SDiv | URem | SRem
  | Shl | LShr | AShr | And | Or | Xor
  | FAdd | FCmp
  | Alloca | Load | Store | GetElementPtr
  | Trunc | ZExt | SExt | FPToUI | FPToSI | UIToFP | SIToFP | FPTrunc | FPExt
  | PtrToInt | IntToPtr | BitCast | AddrSpaceCast
  | ICmp Predicate | PHI | Call | Select

record LLVMFunction =
  FName :: string
  FReturnType :: LLVMType
  FParamTypes :: "LLVMType list"
  FIsVarArg :: bool

text \<open>
  An \<^verbatim>\<open>llvm::Value\<close>. \<open>ConstantInt w v\<close> is the \<open>w\<close>-bit constant of unsigned value \<open>v\<close>;
  an instruction carries a number that tells it from every other instruction (the C++
  tells them apart by address), its opcode, its result type and its operands. A basic
  block stands for the values that are neither constants, globals, arguments nor
  instructions.
\<close>

datatype Value =
    ConstantInt nat nat
  | ConstantPointerNull LLVMType
  | UndefValue LLVMType
  | ConstantExpr Opcode LLVMType "Value list"
  | Function LLVMFunction
  | GlobalVariable string LLVMType
  | Argument LLVMFunction nat LLVMType
  | Instruction nat Opcode LLVMType "Value list"
  | BasicBlock string

fun getType :: "Value \<Rightarrow> LLVMType" where
  "getType (ConstantInt w v) = IntegerTy w"
| "getType (ConstantPointerNull T) = T"
| "getType (UndefValue T) = T"
| "getType (ConstantExpr opc T ops) = T"
| "getType (Function F) = PointerTy FunctionTy"
| "getType (GlobalVariable n T) = T"
| "getType (Argument F i T) = T"
| "getType (Instruction n opc T ops) = T"
| "getType (BasicBlock n) = LabelTy"

fun isIntegerTy :: "LLVMType \<Rightarrow> bool" where
  "isIntegerTy (IntegerTy w) = True"
| "isIntegerTy T = False"

fun isPointerTy :: "LLVMType \<Rightarrow> bool" where
  "isPointerTy (PointerTy T) = True"
| "isPointerTy T = False"

fun isFunction :: "Value \<Rightarrow> bool" where
  "isFunction (Function F) = True"
| "isFunction V = False"

section \<open>Data-layout analysis: the layout type system (DLATypeSystem.h)\<close>

subsection \<open>LayoutTypePtr\<close>

text \<open>\<^verbatim>\<open>unsigned\<close> is 32 bits wide; \<open>UINT_MAX\<close> is \<^verbatim>\<open>std::numeric_limits<unsigned>::max()\<close>.\<close>

definition UINT_MAX :: nat where
  "UINT_MAX = 4294967295"

record LayoutTypePtr =
  V :: Value
  FieldIdx :: nat

text \<open>
  \<^verbatim>\<open>dyn_cast<StructType>(F->getReturnType())\<close> for a function \<open>F\<close>, \<^verbatim>\<open>nullptr\<close> for
  every other value: the element types of the returned struct, if there is one.
\<close>

fun returnedStruct :: "Value \<Rightarrow> LLVMType list option" where
  "returnedStruct (Function F) =
     (case FReturnType F of StructTy elems \<Rightarrow> Some elems | _ \<Rightarrow> None)"
| "returnedStruct W = None"

text \<open>
  The constructor \<^verbatim>\<open>LayoutTypePtr(Val, Idx)\<close>; \<open>Val = None\<close> is the null pointer. The
  three \<^verbatim>\<open>revng_assert\<close>s after the null check are taken in the source's order.
\<close>

definition LayoutTypePtr_ctor :: "Value option \<Rightarrow> nat \<Rightarrow> error + LayoutTypePtr" where
  "LayoutTypePtr_ctor Val Idx =
     (case Val of
        None \<Rightarrow> Inl AssertionFailure
      | Some Vl \<Rightarrow>
          let Ty = getType Vl in
          if \<not> (isFunction Vl \<or> isIntegerTy Ty \<or> isPointerTy Ty) then Inl AssertionFailure
          else
            let StructTy = returnedStruct Vl;
                VIsFunctionAndReturnsStruct = (StructTy \<noteq> None) in
            if VIsFunctionAndReturnsStruct = (Idx = UINT_MAX) then Inl AssertionFailure
            else if \<not> (\<not> VIsFunctionAndReturnsStruct \<or> Idx < length (the StructTy))
              then Inl AssertionFailure
            else Inr \<lparr>V = Vl, FieldIdx = Idx\<rparr>)"

text \<open>
  The class declares its copy and move assignment public and \<^verbatim>\<open>= default\<close>, and
  neither member is \<^verbatim>\<open>const\<close> (\<^verbatim>\<open>const llvm::Value *V\<close> is a pointer to a constant value,
  not a constant pointer): \<^verbatim>\<open>This = Other\<close> copies both members of \<open>Other\<close> into \<open>This\<close>.
  The result is the object \<open>This\<close> after the assignment.
\<close>

definition LayoutTypePtr_assign :: "LayoutTypePtr \<Rightarrow> LayoutTypePtr \<Rightarrow> LayoutTypePtr" where
  "LayoutTypePtr_assign This Other = This\<lparr>V := V Other, FieldIdx := FieldIdx Other\<rparr>"

subsection \<open>Three-way comparison\<close>

datatype strong_ordering = so_less | so_equal | so_greater

definition compare_three_way :: "'a::linorder \<Rightarrow> 'a \<Rightarrow> strong_ordering" where
  "compare_three_way a b = (if a < b then so_less else if b < a then so_greater else so_equal)"

text \<open>\<^verbatim>\<open>operator<\<close> of two vectors is \<^verbatim>\<open>std::lexicographical_compare\<close>.\<close>

fun lexicographical_compare :: "('a \<Rightarrow> 'a \<Rightarrow> bool) \<Rightarrow> 'a list \<Rightarrow> 'a list \<Rightarrow> bool" where
  "lexicographical_compare lt [] [] = False"
| "lexicographical_compare lt [] (y # ys) = True"
| "lexicographical_compare lt (x # xs) [] = False"
| "lexicographical_compare lt (x # xs) (y # ys) =
     (if lt x y then True else if lt y x then False else lexicographical_compare lt xs ys)"

text \<open>\<^verbatim>\<open>operator<\<close> of \<^verbatim>\<open>std::optional<int64_t>\<close>: the empty optional is below every value.\<close>

fun optional_less :: "int option \<Rightarrow> int option \<Rightarrow> bool" where
  "optional_less a None = False"
| "optional_less None (Some y) = True"
| "optional_less (Some x) (Some y) = (x < y)"

subsection \<open>OffsetExpression and TypeLinkTag\<close>

record OffsetExpression =
  TripCounts :: "int option list"
  Strides :: "int list"
  Offset :: int

definition OffsetExpression_ctor :: "int \<Rightarrow> OffsetExpression" where
  "OffsetExpression_ctor Off = \<lparr>TripCounts = [], Strides = [], Offset = Off\<rparr>"

definition OffsetExpression_cmp :: "OffsetExpression \<Rightarrow> OffsetExpression \<Rightarrow> strong_ordering" where
  "OffsetExpression_cmp A Other =
     (let OffsetCompare = compare_three_way (Offset A) (Offset Other) in
      if OffsetCompare \<noteq> so_equal then OffsetCompare
      else if lexicographical_compare (<) (Strides A) (Strides Other) then so_less
      else if lexicographical_compare (<) (Strides Other) (Strides A) then so_greater
      else if lexicographical_compare optional_less (TripCounts A) (TripCounts Other) then so_less
      else if lexicographical_compare optional_less (TripCounts Other) (TripCounts A) then so_greater
      else so_equal)"

datatype LinkKind = LK_Inheritance | LK_Equality | LK_Instance | LK_All

text \<open>The enumerators' values, in the order the enum declares them.\<close>

fun LinkKind_value :: "LinkKind \<Rightarrow> nat" where
  "LinkKind_value LK_Inheritance = 0"
| "LinkKind_value LK_Equality = 1"
| "LinkKind_value LK_Instance = 2"
| "LinkKind_value LK_All = 3"

record TypeLinkTag =
  OE :: OffsetExpression
  Kind :: LinkKind

definition getOffsetExpr :: "TypeLinkTag \<Rightarrow> error + OffsetExpression" where
  "getOffsetExpr T = (if Kind T = LK_Instance then Inr (OE T) else Inl AssertionFailure)"

definition equalityTag :: TypeLinkTag where
  "equalityTag = \<lparr>OE = OffsetExpression_ctor 0, Kind = LK_Equality\<rparr>"

definition inheritanceTag :: TypeLinkTag where
  "inheritanceTag = \<lparr>OE = OffsetExpression_ctor 0, Kind = LK_Inheritance\<rparr>"

definition instanceTag :: "OffsetExpression \<Rightarrow> TypeLinkTag" where
  "instanceTag O' = \<lparr>OE = O', Kind = LK_Instance\<rparr>"

definition TypeLinkTag_cmp :: "TypeLinkTag \<Rightarrow> TypeLinkTag \<Rightarrow> strong_ordering" where
  "TypeLinkTag_cmp A Other =
     (let Cmp = compare_three_way (LinkKind_value (Kind A)) (LinkKind_value (Kind Other)) in
      if Cmp \<noteq> so_equal then Cmp else OffsetExpression_cmp (OE A) (OE Other))"

definition TypeLinkTag_less :: "TypeLinkTag \<Rightarrow> TypeLinkTag \<Rightarrow> bool" where
  "TypeLinkTag_less A Other = (TypeLinkTag_cmp A Other = so_less)"

subsection \<open>std::set\<close>

text \<open>
  A \<^verbatim>\<open>std::set\<close> is modelled by the list of its elements in iteration order.
  \<open>std_set_insert lt x xs\<close> is \<^verbatim>\<open>insert(x)\<close> under the comparison \<open>lt\<close>: the new
  content, the element the returned iterator points to, and whether \<open>x\<close> went in. An
  element \<open>y\<close> with neither \<open>lt x y\<close> nor \<open>lt y x\<close> is equivalent to \<open>x\<close> and blocks
  the insertion.
\<close>

fun std_set_insert :: "('a \<Rightarrow> 'a \<Rightarrow> bool) \<Rightarrow> 'a \<Rightarrow> 'a list \<Rightarrow> 'a list \<times> 'a \<times> bool" where
  "std_set_insert lt x [] = ([x], x, True)"
| "std_set_insert lt x (y # ys) =
     (if lt x y then (x # y # ys, x, True)
      else if lt y x then
        (case std_set_insert lt x ys of (zs, it, new) \<Rightarrow> (y # zs, it, new))
      else (y # ys, y, False))"

subsection \<open>Nodes and the graph\<close>

text \<open>
  Nodes and interned tags are referred to by address: a \<open>NodePtr\<close> is the address of a
  \<^verbatim>\<open>LayoutTypeSystemNode\<close>, a \<open>TagPtr\<close> the address of an element of \<^verbatim>\<open>LinkTags\<close>, and
  \<open>nullptr\<close> is address 0. A \<open>Link\<close> is the \<^verbatim>\<open>std::pair\<close> of the two, and a
  \<^verbatim>\<open>NeighborsSet\<close> is a \<^verbatim>\<open>std::set<Link>\<close> under the pair's own \<^verbatim>\<open>operator<\<close>, which
  compares the node addresses first and the tag addresses second.
\<close>

type_synonym NodePtr = nat
type_synonym TagPtr = nat
type_synonym Link = "NodePtr \<times> TagPtr"

definition nullptr :: nat where
  "nullptr = 0"

fun Link_less :: "Link \<Rightarrow> Link \<Rightarrow> bool" where
  "Link_less (n1, t1) (n2, t2) = (n1 < n2 \<or> (\<not> n2 < n1 \<and> t1 < t2))"

record LayoutType =
  Accesses :: "nat set"
  Size :: nat

record LayoutTypeSystemNode =
  ID :: nat
  Successors :: "Link list"
  Predecessors :: "Link list"
  L :: LayoutType

text \<open>
  The graph. \<open>Layouts\<close> maps the address of each node the graph owns to the node;
  \<open>LinkTags\<close> lists the interned tags in the order of the set, each with the address of
  its element. The two maps between keys and nodes are kept as they are declared; no
  link insertion touches them.
\<close>

record LayoutTypeSystem =
  NID :: nat
  Layouts :: "NodePtr \<rightharpoonup> LayoutTypeSystemNode"
  TypePtrToLayoutMap :: "LayoutTypePtr \<rightharpoonup> NodePtr"
  LayoutToTypePtrsMap :: "NodePtr \<rightharpoonup> LayoutTypePtr set"
  LinkTags :: "(TypeLinkTag \<times> TagPtr) list"

fun LinkTags_less :: "TypeLinkTag \<times> TagPtr \<Rightarrow> TypeLinkTag \<times> TagPtr \<Rightarrow> bool" where
  "LinkTags_less (A, p) (B, q) = TypeLinkTag_less A B"

text \<open>
  \<^verbatim>\<open>addLink(Src, Tgt, Tag)\<close>. \<open>NewTag\<close> is the address the allocator hands out for a new
  element of \<^verbatim>\<open>LinkTags\<close>; it is used only when no equivalent tag is interned yet.
  The result is the new graph and the pair the C++ returns.
\<close>

definition addLink ::
  "LayoutTypeSystem \<Rightarrow> TagPtr \<Rightarrow> NodePtr \<Rightarrow> NodePtr \<Rightarrow> TypeLinkTag
     \<Rightarrow> error + (LayoutTypeSystem \<times> (TagPtr \<times> bool))" where
  "addLink TS NewTag Src Tgt Tag =
     (if Src = nullptr \<or> Tgt = nullptr \<or> Src = Tgt then Inr (TS, (nullptr, False))
      else
        case Layouts TS Src of
          None \<Rightarrow> Inl AssertionFailure
        | Some SrcNode \<Rightarrow>
            (case Layouts TS Tgt of
               None \<Rightarrow> Inl AssertionFailure
             | Some TgtNode \<Rightarrow>
                 (case std_set_insert LinkTags_less (Tag, NewTag) (LinkTags TS) of
                    (Tags', It, _) \<Rightarrow>
                      let T = snd It in
                      (case std_set_insert Link_less (Tgt, T) (Successors SrcNode) of
                         (Succ', _, New1) \<Rightarrow>
                           (case std_set_insert Link_less (Src, T) (Predecessors TgtNode) of
                              (Pred', _, New2) \<Rightarrow>
                                Inr (TS\<lparr>Layouts := (Layouts TS)
                                            (Src \<mapsto> SrcNode\<lparr>Successors := Succ'\<rparr>,
                                             Tgt \<mapsto> TgtNode\<lparr>Predecessors := Pred'\<rparr>),
                                         LinkTags := Tags'\<rparr>,
                                     (T, New1 \<or> New2)))))))"

text \<open>
  \<^verbatim>\<open>addEqualityLink\<close> inserts the link in both directions and asserts that the two
  insertions returned the same pair. Each insertion may ask the allocator for a tag
  element, so there are two addresses.
\<close>

definition addEqualityLink ::
  "LayoutTypeSystem \<Rightarrow> TagPtr \<Rightarrow> TagPtr \<Rightarrow> NodePtr \<Rightarrow> NodePtr
     \<Rightarrow> error + (LayoutTypeSystem \<times> (TagPtr \<times> bool))" where
  "addEqualityLink TS NewTag1 NewTag2 Src Tgt =
     bind (addLink TS NewTag1 Src Tgt equalityTag) (\<lambda>(TS1, ForwardLinkTag).
     bind (addLink TS1 NewTag2 Tgt Src equalityTag) (\<lambda>(TS2, BackwardLinkTag).
     bind (revng_assert (ForwardLinkTag = BackwardLinkTag)) (\<lambda>_.
     Inr (TS2, ForwardLinkTag))))"

definition addInheritanceLink ::
  "LayoutTypeSystem \<Rightarrow> TagPtr \<Rightarrow> NodePtr \<Rightarrow> NodePtr
     \<Rightarrow> error + (LayoutTypeSystem \<times> (TagPtr \<times> bool))" where
  "addInheritanceLink TS NewTag Src Tgt = addLink TS NewTag Src Tgt inheritanceTag"

definition addInstanceLink ::
  "LayoutTypeSystem \<Rightarrow> TagPtr \<Rightarrow> NodePtr \<Rightarrow> NodePtr \<Rightarrow> OffsetExpression
     \<Rightarrow> error + (LayoutTypeSystem \<times> (TagPtr \<times> bool))" where
  "addInstanceLink TS NewTag Src Tgt O' = addLink TS NewTag Src Tgt (instanceTag O')"

text \<open>The links of a node as sets; a pointer to no node of the graph has none.\<close>

definition succs :: "LayoutTypeSystem \<Rightarrow> NodePtr \<Rightarrow> Link set" where
  "succs TS A = (case Layouts TS A of None \<Rightarrow> {} | Some N \<Rightarrow> set (Successors N))"

definition preds :: "LayoutTypeSystem \<Rightarrow> NodePtr \<Rightarrow> Link set" where
  "preds TS A = (case Layouts TS A of None \<Rightarrow> {} | Some N \<Rightarrow> set (Predecessors N))"

section \<open>The Clang AST the builder emits\<close>

subsection \<open>Types\<close>

text \<open>
  The builtin kinds are Clang's \<^verbatim>\<open>BuiltinType::Kind\<close>, written with the prefix \<open>BT_\<close>.
  Types are taken canonical (no typedef sugar). \<open>NullTy\<close> is the null \<^verbatim>\<open>QualType\<close>;
  \<open>Volatile T\<close> is \<open>T\<close> with the volatile qualifier, and \<open>getTypePtr\<close> drops
  qualifiers as \<^verbatim>\<open>QualType::getTypePtr\<close> does.
\<close>

datatype BuiltinKind =
    BT_Void | BT_Bool
  | BT_Char_U | BT_UChar | BT_UShort | BT_UInt | BT_ULong | BT_ULongLong | BT_UInt128
  | BT_Char_S | BT_SChar | BT_Short | BT_Int | BT_Long | BT_LongLong | BT_Int128
  | BT_Float

datatype QualType =
    NullTy
  | Builtin BuiltinKind
  | Pointer QualType
  | Volatile QualType
  | ConstantArray QualType nat
  | FunctionProto QualType "QualType list"

fun getTypePtr :: "QualType \<Rightarrow> QualType" where
  "getTypePtr (Volatile T) = getTypePtr T"
| "getTypePtr T = T"

fun addVolatile :: "QualType \<Rightarrow> QualType" where
  "addVolatile (Volatile T) = Volatile T"
| "addVolatile T = Volatile T"

fun isIntegerType :: "QualType \<Rightarrow> bool" where
  "isIntegerType (Builtin BT_Void) = False"
| "isIntegerType (Builtin BT_Float) = False"
| "isIntegerType (Builtin k) = True"
| "isIntegerType T = False"

fun isUnsignedIntegerType :: "QualType \<Rightarrow> bool" where
  "isUnsignedIntegerType (Builtin k) =
     (k \<in> {BT_Bool, BT_Char_U, BT_UChar, BT_UShort, BT_UInt, BT_ULong, BT_ULongLong, BT_UInt128})"
| "isUnsignedIntegerType T = False"

fun isPointerType :: "QualType \<Rightarrow> bool" where
  "isPointerType (Pointer T) = True"
| "isPointerType T = False"

fun isBuiltinType :: "QualType \<Rightarrow> bool" where
  "isBuiltinType (Builtin k) = True"
| "isBuiltinType T = False"

subsection \<open>ASTContext\<close>

text \<open>
  What the builder asks of \<^verbatim>\<open>clang::ASTContext\<close> depends on the target: the widths of
  the integer types and of pointers, whether \<^verbatim>\<open>char\<close> is signed, and which integer
  type \<^verbatim>\<open>uintptr_t\<close> is. \<open>IntType\<close> is \<^verbatim>\<open>TargetInfo::IntType\<close>.
\<close>

datatype IntType =
    NoInt | SignedChar | UnsignedChar | SignedShort | UnsignedShort | SignedInt | UnsignedInt
  | SignedLong | UnsignedLong | SignedLongLong | UnsignedLongLong

record ASTContext =
  CharWidth :: nat
  ShortWidth :: nat
  IntWidth :: nat
  LongWidth :: nat
  LongLongWidth :: nat
  PointerWidth :: nat
  CharIsSigned :: bool
  UIntPtrType :: IntType

fun getFromTargetType :: "IntType \<Rightarrow> QualType" where
  "getFromTargetType NoInt = NullTy"
| "getFromTargetType SignedChar = Builtin BT_SChar"
| "getFromTargetType UnsignedChar = Builtin BT_UChar"
| "getFromTargetType SignedShort = Builtin BT_Short"
| "getFromTargetType UnsignedShort = Builtin BT_UShort"
| "getFromTargetType SignedInt = Builtin BT_Int"
| "getFromTargetType UnsignedInt = Builtin BT_UInt"
| "getFromTargetType SignedLong = Builtin BT_Long"
| "getFromTargetType UnsignedLong = Builtin BT_ULong"
| "getFromTargetType SignedLongLong = Builtin BT_LongLong"
| "getFromTargetType UnsignedLongLong = Builtin BT_ULongLong"

definition getUIntPtrType :: "ASTContext \<Rightarrow> QualType" where
  "getUIntPtrType Ctx = getFromTargetType (UIntPtrType Ctx)"

definition CharTy :: "ASTContext \<Rightarrow> QualType" where
  "CharTy Ctx = Builtin (if CharIsSigned Ctx then BT_Char_S else BT_Char_U)"

fun getBuiltinSize :: "ASTContext \<Rightarrow> BuiltinKind \<Rightarrow> nat" where
  "getBuiltinSize Ctx BT_Void = 0"
| "getBuiltinSize Ctx BT_Bool = 8"
| "getBuiltinSize Ctx BT_Char_U = CharWidth Ctx"
| "getBuiltinSize Ctx BT_UChar = CharWidth Ctx"
| "getBuiltinSize Ctx BT_Char_S = CharWidth Ctx"
| "getBuiltinSize Ctx BT_SChar = CharWidth Ctx"
| "getBuiltinSize Ctx BT_UShort = ShortWidth Ctx"
| "getBuiltinSize Ctx BT_Short = ShortWidth Ctx"
| "getBuiltinSize Ctx BT_UInt = IntWidth Ctx"
| "getBuiltinSize Ctx BT_Int = IntWidth Ctx"
| "getBuiltinSize Ctx BT_ULong = LongWidth Ctx"
| "getBuiltinSize Ctx BT_Long = LongWidth Ctx"
| "getBuiltinSize Ctx BT_ULongLong = LongLongWidth Ctx"
| "getBuiltinSize Ctx BT_LongLong = LongLongWidth Ctx"
| "getBuiltinSize Ctx BT_UInt128 = 128"
| "getBuiltinSize Ctx BT_Int128 = 128"
| "getBuiltinSize Ctx BT_Float = 32"

text \<open>The size of a type in bits. The builder asks it of integer and pointer types only.\<close>

fun getTypeSize :: "ASTContext \<Rightarrow> QualType \<Rightarrow> nat" where
  "getTypeSize Ctx NullTy = 0"
| "getTypeSize Ctx (Builtin k) = getBuiltinSize Ctx k"
| "getTypeSize Ctx (Pointer T) = PointerWidth Ctx"
| "getTypeSize Ctx (Volatile T) = getTypeSize Ctx T"
| "getTypeSize Ctx (ConstantArray T n) = n * getTypeSize Ctx T"
| "getTypeSize Ctx (FunctionProto R Ps) = 0"

definition getIntWidth :: "ASTContext \<Rightarrow> QualType \<Rightarrow> nat" where
  "getIntWidth Ctx T = (if getTypePtr T = Builtin BT_Bool then 1 else getTypeSize Ctx T)"

definition getIntTypeByWidth :: "ASTContext \<Rightarrow> nat \<Rightarrow> bool \<Rightarrow> IntType" where
  "getIntTypeByWidth Ctx BitWidth IsSigned =
     (if CharWidth Ctx = BitWidth then (if IsSigned then SignedChar else UnsignedChar)
      else if ShortWidth Ctx = BitWidth then (if IsSigned then SignedShort else UnsignedShort)
      else if IntWidth Ctx = BitWidth then (if IsSigned then SignedInt else UnsignedInt)
      else if LongWidth Ctx = BitWidth then (if IsSigned then SignedLong else UnsignedLong)
      else if LongLongWidth Ctx = BitWidth
        then (if IsSigned then SignedLongLong else UnsignedLongLong)
      else NoInt)"

definition getIntTypeForBitwidth :: "ASTContext \<Rightarrow> nat \<Rightarrow> bool \<Rightarrow> QualType" where
  "getIntTypeForBitwidth Ctx DestWidth Signed =
     (let QualTy = getFromTargetType (getIntTypeByWidth Ctx DestWidth Signed) in
      if QualTy = NullTy \<and> DestWidth = 128
        then (if Signed then Builtin BT_Int128 else Builtin BT_UInt128)
      else QualTy)"

subsection \<open>Declarations, expressions and statements\<close>

datatype CastKind =
    CK_IntegralCast | CK_PointerToIntegral | CK_IntegralToPointer | CK_BitCast
  | CK_LValueToRValue | CK_ArrayToPointerDecay

datatype BinaryOperatorKind =
    BO_Mul | BO_Div | BO_Rem | BO_Add | BO_Sub | BO_Shl | BO_Shr
  | BO_LT | BO_GT | BO_LE | BO_GE | BO_EQ | BO_NE
  | BO_And | BO_Xor | BO_Or | BO_Assign

datatype UnaryOperatorKind = UO_AddrOf | UO_Deref

datatype ExprValueKind = VK_RValue | VK_LValue

datatype Decl =
    FunctionDecl string QualType "Decl list"
  | VarDecl string QualType
  | ParmVarDecl string QualType

fun getDeclType :: "Decl \<Rightarrow> QualType" where
  "getDeclType (FunctionDecl n T Ps) = T"
| "getDeclType (VarDecl n T) = T"
| "getDeclType (ParmVarDecl n T) = T"

fun getParams :: "Decl \<Rightarrow> Decl list" where
  "getParams (FunctionDecl n T Ps) = Ps"
| "getParams D = []"

text \<open>
  The expression nodes the builder creates, each with the arguments that vary in the
  source. \<open>IntegerLiteral w v T\<close> holds the \<^verbatim>\<open>APInt\<close> of width \<open>w\<close> and unsigned value
  \<open>v\<close>. Casts, binary and conditional operators and calls are always created as
  rvalues, array subscripts as lvalues.
\<close>

datatype Expr =
    IntegerLiteral nat nat QualType
  | CharacterLiteral nat QualType
  | DeclRefExpr Decl QualType ExprValueKind
  | ParenExpr Expr
  | CStyleCastExpr QualType CastKind Expr
  | ImplicitCastExpr QualType CastKind Expr
  | BinaryOperator Expr Expr BinaryOperatorKind QualType
  | UnaryOperator Expr UnaryOperatorKind QualType ExprValueKind
  | ConditionalOperator Expr Expr Expr QualType
  | CallExpr Expr "Expr list" QualType
  | ArraySubscriptExpr Expr Expr QualType

fun getExprType :: "Expr \<Rightarrow> QualType" where
  "getExprType (IntegerLiteral w v T) = T"
| "getExprType (CharacterLiteral v T) = T"
| "getExprType (DeclRefExpr D T vk) = T"
| "getExprType (ParenExpr E) = getExprType E"
| "getExprType (CStyleCastExpr T ck E) = T"
| "getExprType (ImplicitCastExpr T ck E) = T"
| "getExprType (BinaryOperator Lhs Rhs opc T) = T"
| "getExprType (UnaryOperator E opc T vk) = T"
| "getExprType (ConditionalOperator Cond Tr Fa T) = T"
| "getExprType (CallExpr Callee Args T) = T"
| "getExprType (ArraySubscriptExpr Base Idx T) = T"

fun isLValue :: "Expr \<Rightarrow> bool" where
  "isLValue (DeclRefExpr D T vk) = (vk = VK_LValue)"
| "isLValue (ParenExpr E) = isLValue E"
| "isLValue (UnaryOperator E opc T vk) = (vk = VK_LValue)"
| "isLValue (ArraySubscriptExpr Base Idx T) = True"
| "isLValue E = False"

fun isBinaryOperator :: "Expr \<Rightarrow> bool" where
  "isBinaryOperator (BinaryOperator Lhs Rhs opc T) = True"
| "isBinaryOperator E = False"

fun isConditionalOperator :: "Expr \<Rightarrow> bool" where
  "isConditionalOperator (ConditionalOperator Cond Tr Fa T) = True"
| "isConditionalOperator E = False"

text \<open>A statement is an expression or a return; \<^verbatim>\<open>cast<Expr>\<close> fails on the second.\<close>

datatype Stmt = ExprStmt Expr | ReturnStmt "Expr option"

section \<open>The AST builder (ASTBuildAnalysis.cpp)\<close>

subsection \<open>The builder's state\<close>

text \<open>
  What the modelled member functions of \<^verbatim>\<open>StmtBuilder\<close> read: the AST context and the
  four tables from IR values to declarations and statements. None of the modelled
  functions writes a table.

  \<^verbatim>\<open>IRASTTypeTranslation::getQualType\<close> has two overloads, on a value and on a type. The
  file that defines them is not among the sources, so both are parameters of the
  model: \<open>getQualType\<close> and \<open>getQualTypeOfType\<close>.

  \<open>NDEBUG\<close> says whether LLVM's \<^verbatim>\<open>assert\<close>s are compiled out. It decides two things.
  \<^item> \<^verbatim>\<open>APInt::getZExtValue\<close> on a value wider than 64 bits, which the source comments
    on: "With LLVM compiled in debug this asserts whenever ConstValue is larger than 64
    bits". Without the assertion the low word is returned.
  \<^item> \<^verbatim>\<open>cast<ConstantInt>\<close> on the operand of a constant expression. The check of
    \<^verbatim>\<open>llvm::cast<>\<close> is an \<^verbatim>\<open>assert\<close>; without it the cast is a pointer conversion,
    and the operand, whatever its kind, is handed to \<^verbatim>\<open>getExprForValue\<close>, which takes a
    \<^verbatim>\<open>Value *\<close> and dispatches on the kind the value really has.

  The other uses of \<^verbatim>\<open>cast<>\<close> (to \<^verbatim>\<open>Expr\<close>, \<^verbatim>\<open>BuiltinType\<close>, \<^verbatim>\<open>PointerType\<close>) yield a
  pointer that the code goes on to use at the class cast to: \<^verbatim>\<open>getKind()\<close> and
  \<^verbatim>\<open>getPointeeType()\<close> are called on it, or it is returned as an \<^verbatim>\<open>Expr *\<close>. On an object
  of another class this has no defined result once the check is compiled out, and
  the datatypes here have no value for it; the model keeps the failure there in both
  builds.
\<close>

record StmtBuilder =
  ASTCtx :: ASTContext
  NDEBUG :: bool
  getQualType :: "Value \<Rightarrow> QualType"
  getQualTypeOfType :: "LLVMType \<Rightarrow> QualType"
  FunctionDecls :: "Value \<rightharpoonup> Decl"
  GlobalDecls :: "Value \<rightharpoonup> Decl"
  VarDecls :: "Value \<rightharpoonup> Decl"
  InstrStmts :: "Value \<rightharpoonup> Stmt"

subsection \<open>createCast\<close>

lemma bind_cong [fundef_cong]:
  "m = m' \<Longrightarrow> (\<And>x. m' = Inr x \<Longrightarrow> f x = g x) \<Longrightarrow> bind m f = bind m' g"
  by (cases m') (auto simp: bind_def)

lemma getFromTargetType_not_pointer: "\<not> isPointerType (getTypePtr (getFromTargetType t))"
  by (cases t) auto

text \<open>
  \<^verbatim>\<open>createCast(LHSQualTy, RHS, ASTCtx)\<close>. A null type on either side is dereferenced by
  the first \<^verbatim>\<open>isIntegerType\<close>. The call on itself, to widen to \<^verbatim>\<open>uintptr_t\<close>, has an
  integer destination and so makes no further call.
\<close>

function createCast :: "ASTContext \<Rightarrow> QualType \<Rightarrow> Expr \<Rightarrow> error + Expr" where
  "createCast Ctx LHSQualTy RHS =
     (let RHSQualTy = getExprType RHS;
          LHSTy = getTypePtr LHSQualTy;
          RHSTy = getTypePtr RHSQualTy in
      if LHSTy = NullTy \<or> RHSTy = NullTy then Inl NullDereference
      else if isIntegerType LHSTy then
        (if isIntegerType RHSTy then Inr (CStyleCastExpr LHSQualTy CK_IntegralCast RHS)
         else if isPointerType RHSTy then Inr (CStyleCastExpr LHSQualTy CK_PointerToIntegral RHS)
         else Inl Abort)
      else if isPointerType LHSTy then
        (if isIntegerType RHSTy then
           (let PtrSize = getTypeSize Ctx LHSQualTy;
                IntegerSize = getTypeSize Ctx RHSQualTy in
            if \<not> PtrSize \<ge> IntegerSize then Inl AssertionFailure
            else
              bind (if PtrSize > IntegerSize then createCast Ctx (getUIntPtrType Ctx) RHS
                    else Inr RHS)
                (\<lambda>RHS'. Inr (CStyleCastExpr LHSQualTy CK_IntegralToPointer RHS')))
         else if isPointerType RHSTy then Inr (CStyleCastExpr LHSQualTy CK_BitCast RHS)
         else Inl Abort)
      else Inl Abort)"
  by pat_completeness auto
termination createCast
  by (relation "measure (\<lambda>(Ctx, T, E). if isPointerType (getTypePtr T) then 1 else 0)")
     (auto simp: getUIntPtrType_def getFromTargetType_not_pointer)

subsection \<open>Constants of LLVM the builder reads\<close>

text \<open>\<^verbatim>\<open>getOperand(i)\<close>; an index past the last operand is a failure.\<close>

definition getOperand :: "Value list \<Rightarrow> nat \<Rightarrow> error + Value" where
  "getOperand ops i = (if i < length ops then Inr (ops ! i) else Inl OutOfRange)"

text \<open>
  \<^verbatim>\<open>APInt::getZExtValue\<close> of a \<open>w\<close>-bit value \<open>v\<close>: the value itself when it is held in
  one 64-bit word; otherwise the low word, after an \<^verbatim>\<open>assert\<close> that the value fits in
  64 bits.
\<close>

definition getZExtValue :: "bool \<Rightarrow> nat \<Rightarrow> nat \<Rightarrow> error + nat" where
  "getZExtValue ndebug w v =
     (if w \<le> 64 then Inr v
      else if \<not> ndebug \<and> \<not> v < 2 ^ 64 then Inl AssertionFailure
      else Inr (v mod 2 ^ 64))"

text \<open>
  The unsigned value of \<^verbatim>\<open>APInt(numBits, val, isSigned)\<close> for a 64-bit \<open>val\<close>: cut to
  \<open>numBits\<close> bits, or, beyond 64 bits, sign-extended when \<open>isSigned\<close> and bit 63 is set.
\<close>

definition APInt :: "nat \<Rightarrow> nat \<Rightarrow> bool \<Rightarrow> nat" where
  "APInt numBits val isSigned =
     (if numBits \<le> 64 then val mod 2 ^ numBits
      else if isSigned \<and> 2 ^ 63 \<le> val then val + (2 ^ numBits - 2 ^ 64)
      else val)"

fun isConstantInt :: "Value \<Rightarrow> bool" where
  "isConstantInt (ConstantInt w v) = True"
| "isConstantInt W = False"

fun isGlobalVariable :: "Value \<Rightarrow> bool" where
  "isGlobalVariable (GlobalVariable n T) = True"
| "isGlobalVariable W = False"

fun isConstantPointerNull :: "Value \<Rightarrow> bool" where
  "isConstantPointerNull (ConstantPointerNull T) = True"
| "isConstantPointerNull W = False"

definition isCastInst :: "Opcode \<Rightarrow> bool" where
  "isCastInst opc =
     (opc \<in> {Trunc, ZExt, SExt, FPToUI, FPToSI, UIToFP, SIToFP, FPTrunc, FPExt,
              PtrToInt, IntToPtr, BitCast, AddrSpaceCast})"

definition isIntOrPtrTy :: "LLVMType \<Rightarrow> bool" where
  "isIntOrPtrTy T = (isIntegerTy T \<or> isPointerTy T)"

subsection \<open>Expressions for values\<close>

text \<open>
  \<^verbatim>\<open>getParenthesizedExprForValue\<close>, \<^verbatim>\<open>getExprForValue\<close> and \<^verbatim>\<open>getLiteralFromConstant\<close>
  call one another. Four stretches of their bodies that make no such call are
  definitions of their own, each the source's statements in order:
  \<^item> \<open>parenthesize\<close>: the wrapping of a binary or conditional operator;
  \<^item> \<open>literalFromConstantInt\<close>: the \<^verbatim>\<open>ConstantInt\<close> branch of \<^verbatim>\<open>getLiteralFromConstant\<close>;
  \<^item> \<open>derefAddress\<close>: the load/store branch of \<^verbatim>\<open>getExprForValue\<close> from the
    lvalue-to-rvalue cast of the address on;
  \<^item> \<open>castResult\<close>: the cast branch of \<^verbatim>\<open>getExprForValue\<close> once the operand's
    expression is known.
\<close>

definition parenthesize :: "Expr \<Rightarrow> Expr" where
  "parenthesize Res =
     (if isBinaryOperator Res \<or> isConditionalOperator Res then ParenExpr Res else Res)"

definition literalFromConstantInt :: "StmtBuilder \<Rightarrow> Value \<Rightarrow> nat \<Rightarrow> nat \<Rightarrow> error + Expr" where
  "literalFromConstantInt B CInt w v =
     (let Ctx = ASTCtx B;
          LiteralTy = getQualType B CInt;
          UnderlyingTy = getTypePtr LiteralTy in
      if UnderlyingTy = NullTy then Inl AssertionFailure
      else
        case UnderlyingTy of
          Builtin k \<Rightarrow>
            bind (getZExtValue (NDEBUG B) w v) (\<lambda>ConstValue.
              if k \<in> {BT_Char_U, BT_Char_S, BT_UChar, BT_SChar} then
                Inr (CharacterLiteral (ConstValue mod 2 ^ 32) (CharTy Ctx))
              else if k = BT_UShort then
                (let IntT = Builtin BT_UInt; ShortT = Builtin BT_UShort;
                     Const = APInt (getIntWidth Ctx IntT) ConstValue False in
                 createCast Ctx ShortT (IntegerLiteral (getIntWidth Ctx IntT) Const IntT))
              else if k = BT_Short then
                (let IntT = Builtin BT_Int; ShortT = Builtin BT_Short;
                     Const = APInt (getIntWidth Ctx IntT) ConstValue True in
                 createCast Ctx ShortT (IntegerLiteral (getIntWidth Ctx IntT) Const IntT))
              else if k \<in> {BT_UInt, BT_ULong, BT_ULongLong} then
                Inr (IntegerLiteral (getIntWidth Ctx LiteralTy)
                       (APInt (getIntWidth Ctx LiteralTy) ConstValue False) LiteralTy)
              else if k \<in> {BT_Int, BT_Long, BT_LongLong} then
                Inr (IntegerLiteral (getIntWidth Ctx LiteralTy)
                       (APInt (getIntWidth Ctx LiteralTy) ConstValue True) LiteralTy)
              else if k = BT_UInt128 then
                Inr (IntegerLiteral 64 (APInt 64 ConstValue False) (Builtin BT_ULongLong))
              else if k = BT_Int128 then
                Inr (IntegerLiteral 64 (APInt 64 ConstValue True) (Builtin BT_LongLong))
              else Inl Abort)
        | _ \<Rightarrow> Inl AssertionFailure)"

definition derefAddress ::
  "StmtBuilder \<Rightarrow> Value \<Rightarrow> QualType \<Rightarrow> Expr \<Rightarrow> error + Expr" where
  "derefAddress B Addr PointeeType AddrExpr0 =
     (let Ctx = ASTCtx B;
          QualAddrType = getExprType AddrExpr0;
          AddrExpr1 = ImplicitCastExpr QualAddrType CK_LValueToRValue AddrExpr0;
          AddrTy = getTypePtr (getExprType AddrExpr1) in
      bind (if \<not> isPointerType AddrTy then
              (if \<not> isBuiltinType AddrTy then Inl AssertionFailure
               else if \<not> isIntegerType AddrTy then Inl AssertionFailure
               else
                 let PtrTy = Pointer PointeeType;
                     PtrSize = getTypeSize Ctx PtrTy;
                     IntegerSize = getTypeSize Ctx AddrTy in
                 if \<not> PtrSize \<ge> IntegerSize then Inl AssertionFailure
                 else
                   bind (if PtrSize > IntegerSize
                           then createCast Ctx (getUIntPtrType Ctx) AddrExpr1
                         else Inr AddrExpr1)
                     (\<lambda>AddrExpr2. createCast Ctx PtrTy AddrExpr2))
            else Inr AddrExpr1)
        (\<lambda>AddrExpr3.
      bind (if isConstantPointerNull Addr then
              (case getTypePtr (getExprType AddrExpr3) of
                 Pointer QualPointeeTy \<Rightarrow>
                   createCast Ctx (Pointer (addVolatile QualPointeeTy)) AddrExpr3
               | _ \<Rightarrow> Inl AssertionFailure)
            else Inr AddrExpr3)
        (\<lambda>AddrExpr4. Inr (UnaryOperator AddrExpr4 UO_Deref PointeeType VK_LValue))))"

definition castResult ::
  "StmtBuilder \<Rightarrow> Opcode \<Rightarrow> LLVMType \<Rightarrow> LLVMType \<Rightarrow> Expr \<Rightarrow> error + Expr" where
  "castResult B opc RHSTy LHSTy Result0 =
     (let Ctx = ASTCtx B in
      if RHSTy \<noteq> LHSTy then
        (if \<not> (isIntOrPtrTy RHSTy \<and> isIntOrPtrTy LHSTy) then Inl AssertionFailure
         else
           let DestTy = getQualTypeOfType B LHSTy in
           bind (if opc \<in> {Trunc, ZExt, SExt} then
                   (if \<not> (\<not> isPointerTy RHSTy \<and> \<not> isPointerTy LHSTy) then Inl AssertionFailure
                    else Inr (CK_IntegralCast, Result0))
                 else if opc = IntToPtr then
                   (if \<not> (\<not> isPointerTy RHSTy \<and> isPointerTy LHSTy) then Inl AssertionFailure
                    else
                      let IntQualType = getExprType Result0 in
                      if \<not> isPointerType (getTypePtr DestTy) then Inl AssertionFailure
                      else
                        let PtrSize = getTypeSize Ctx DestTy;
                            IntegerSize = getTypeSize Ctx IntQualType in
                        if \<not> PtrSize \<ge> IntegerSize then Inl AssertionFailure
                        else
                          bind (if PtrSize > IntegerSize
                                  then createCast Ctx (getUIntPtrType Ctx) Result0
                                else Inr Result0)
                            (\<lambda>Result1. Inr (CK_IntegralToPointer, Result1)))
                 else if opc = PtrToInt then
                   (if \<not> (isPointerTy RHSTy \<and> \<not> isPointerTy LHSTy) then Inl AssertionFailure
                    else Inr (CK_PointerToIntegral, Result0))
                 else if opc = BitCast then
                   (if \<not> (isPointerTy RHSTy \<and> isPointerTy LHSTy) then Inl AssertionFailure
                    else Inr (CK_BitCast, Result0))
                 else Inl Abort)
             (\<lambda>(CK, Result2). Inr (CStyleCastExpr DestTy CK Result2)))
      else Inr Result0)"

lemma getOperand_size:
  "getOperand ops i = Inr W \<Longrightarrow> size W < Suc (size_list size ops)"
proof -
  assume "getOperand ops i = Inr W"
  then have "W \<in> set ops" by (auto simp: getOperand_def split: if_splits)
  then have "size W \<le> size_list size ops" by (rule size_list_estimation') simp
  then show ?thesis by simp
qed

text \<open>
  The pointer operand of a load is operand 0, that of a store operand 1; the stored
  value is operand 0. The source type of a cast is the type of its operand, the
  destination type the type of the instruction.
\<close>

function getParenthesizedExprForValue :: "StmtBuilder \<Rightarrow> Value \<Rightarrow> error + Expr"
  and getExprForValue :: "StmtBuilder \<Rightarrow> Value \<Rightarrow> error + Expr"
  and getLiteralFromConstant :: "StmtBuilder \<Rightarrow> Value \<Rightarrow> error + Expr" where
  "getParenthesizedExprForValue B W =
     bind (getExprForValue B W) (\<lambda>Res. Inr (parenthesize Res))"
| "getExprForValue B W =
     (case W of
        ConstantInt w v \<Rightarrow> getLiteralFromConstant B W
      | ConstantPointerNull T \<Rightarrow> getLiteralFromConstant B W
      | UndefValue T \<Rightarrow> getLiteralFromConstant B W
      | ConstantExpr opc T ops \<Rightarrow> getLiteralFromConstant B W
      | Function F \<Rightarrow>
          (case FunctionDecls B W of
             None \<Rightarrow> Inl OutOfRange
           | Some FDecl \<Rightarrow> Inr (DeclRefExpr FDecl (getDeclType FDecl) VK_LValue))
      | GlobalVariable n T \<Rightarrow>
          (case GlobalDecls B W of
             None \<Rightarrow> Inl OutOfRange
           | Some GlobalVarDecl \<Rightarrow>
               Inr (DeclRefExpr GlobalVarDecl (getDeclType GlobalVarDecl) VK_LValue))
      | Instruction n opc T ops \<Rightarrow>
          (case VarDecls B W of
             Some VDecl \<Rightarrow> Inr (DeclRefExpr VDecl (getDeclType VDecl) VK_LValue)
           | None \<Rightarrow>
               (case InstrStmts B W of
                  Some S \<Rightarrow> (case S of ExprStmt E \<Rightarrow> Inr E | _ \<Rightarrow> Inl AssertionFailure)
                | None \<Rightarrow>
                    if opc = Load \<or> opc = Store then
                      bind (getOperand ops (if opc = Load then 0 else 1)) (\<lambda>Addr.
                      bind (getParenthesizedExprForValue B Addr) (\<lambda>AddrExpr.
                        if isGlobalVariable Addr then Inr AddrExpr
                        else
                          bind (if opc = Load then Inr (getQualType B W)
                                else bind (getOperand ops 0)
                                       (\<lambda>Stored. Inr (getQualType B Stored)))
                            (\<lambda>PointeeType. derefAddress B Addr PointeeType AddrExpr)))
                    else if isCastInst opc then
                      bind (getOperand ops 0) (\<lambda>RHS.
                      bind (getParenthesizedExprForValue B RHS) (\<lambda>Result.
                        castResult B opc (getType RHS) T Result))
                    else Inl Abort))
      | Argument F ArgNo T \<Rightarrow>
          if FIsVarArg F then Inl AssertionFailure
          else
            (case FunctionDecls B (Function F) of
               None \<Rightarrow> Inl OutOfRange
             | Some FDecl \<Rightarrow>
                 if length (FParamTypes F) \<noteq> length (getParams FDecl) then Inl AssertionFailure
                 else if \<not> ArgNo < length (getParams FDecl) then Inl OutOfRange
                 else
                   let ParamVDecl = getParams FDecl ! ArgNo in
                   Inr (DeclRefExpr ParamVDecl (getDeclType ParamVDecl) VK_LValue))
      | BasicBlock n \<Rightarrow> Inl Abort)"
| "getLiteralFromConstant B C =
     (case C of
        ConstantInt w v \<Rightarrow> literalFromConstantInt B C w v
      | ConstantPointerNull T \<Rightarrow>
          (let UIntPtr = getUIntPtrType (ASTCtx B);
               UIntPtrSize = getTypeSize (ASTCtx B) UIntPtr in
           Inr (IntegerLiteral UIntPtrSize 0 UIntPtr))
      | UndefValue T \<Rightarrow> Inl Abort
      | ConstantExpr opc T ops \<Rightarrow>
          if opc \<in> {Trunc, ZExt, SExt, IntToPtr, PtrToInt, BitCast} then
            bind (getOperand ops 0) (\<lambda>Op.
              if isConstantInt Op \<or> NDEBUG B then getExprForValue B Op
              else Inl AssertionFailure)
          else Inl Abort
      | _ \<Rightarrow> Inl Abort)"
  by pat_completeness auto
termination
  by (relation "measure (\<lambda>x. case x of
          Inl (B, W) \<Rightarrow> 3 * size W + 2
        | Inr (Inl (B, W)) \<Rightarrow> 3 * size W + 1
        | Inr (Inr (B, W)) \<Rightarrow> 3 * size W)")
     (auto dest!: getOperand_size)

subsection \<open>Binary operators\<close>

text \<open>
  \<^verbatim>\<open>getClangBinaryOpKind\<close>, on the opcode and predicate of the instruction. In the
  source the case of \<^verbatim>\<open>Instruction::Mul\<close> does not end in \<^verbatim>\<open>break\<close>: control falls
  through into the case of \<^verbatim>\<open>Instruction::And\<close>, which assigns \<open>Res\<close> again.
\<close>

fun getClangBinaryOpKind :: "Opcode \<Rightarrow> error + BinaryOperatorKind" where
  "getClangBinaryOpKind Add = Inr BO_Add"
| "getClangBinaryOpKind Sub = Inr BO_Sub"
| "getClangBinaryOpKind Mul = (let Res = BO_Mul; Res = BO_And in Inr Res)"
| "getClangBinaryOpKind And = Inr BO_And"
| "getClangBinaryOpKind Or = Inr BO_Or"
| "getClangBinaryOpKind Xor = Inr BO_Xor"
| "getClangBinaryOpKind (ICmp ICMP_EQ) = Inr BO_EQ"
| "getClangBinaryOpKind (ICmp ICMP_NE) = Inr BO_NE"
| "getClangBinaryOpKind (ICmp ICMP_UGT) = Inr BO_GT"
| "getClangBinaryOpKind (ICmp ICMP_SGT) = Inr BO_GT"
| "getClangBinaryOpKind (ICmp ICMP_UGE) = Inr BO_GE"
| "getClangBinaryOpKind (ICmp ICMP_SGE) = Inr BO_GE"
| "getClangBinaryOpKind (ICmp ICMP_ULT) = Inr BO_LT"
| "getClangBinaryOpKind (ICmp ICMP_SLT) = Inr BO_LT"
| "getClangBinaryOpKind (ICmp ICMP_ULE) = Inr BO_LE"
| "getClangBinaryOpKind (ICmp ICMP_SLE) = Inr BO_LE"
| "getClangBinaryOpKind (ICmp BAD_ICMP_PREDICATE) = Inl Abort"
| "getClangBinaryOpKind Shl = Inr BO_Shl"
| "getClangBinaryOpKind LShr = Inr BO_Shr"
| "getClangBinaryOpKind AShr = Inr BO_Shr"
| "getClangBinaryOpKind UDiv = Inr BO_Div"
| "getClangBinaryOpKind SDiv = Inr BO_Div"
| "getClangBinaryOpKind URem = Inr BO_Rem"
| "getClangBinaryOpKind SRem = Inr BO_Rem"
| "getClangBinaryOpKind opc = Inl Abort"

definition is128Int :: "Expr \<Rightarrow> bool" where
  "is128Int E =
     (let T = getTypePtr (getExprType E) in T = Builtin BT_Int128 \<or> T = Builtin BT_UInt128)"

definition isSigned :: "Predicate \<Rightarrow> bool" where
  "isSigned p = (p \<in> {ICMP_SGT, ICMP_SGE, ICMP_SLT, ICMP_SLE})"

fun isICmp :: "Opcode \<Rightarrow> bool" where
  "isICmp (ICmp p) = True"
| "isICmp opc = False"

fun isSignedCmp :: "Opcode \<Rightarrow> bool" where
  "isSignedCmp (ICmp p) = isSigned p"
| "isSignedCmp opc = False"

definition getCastedBinaryOperands ::
  "ASTContext \<Rightarrow> Opcode \<Rightarrow> Expr \<Rightarrow> Expr \<Rightarrow> error + (Expr \<times> Expr)" where
  "getCastedBinaryOperands Ctx OpCode LHS RHS =
     (let LHSTy = getTypePtr (getExprType LHS);
          RHSTy = getTypePtr (getExprType RHS) in
      if \<not> (isIntegerType LHSTy \<and> isIntegerType RHSTy) then Inl AssertionFailure
      else
        let LHSSize = getTypeSize Ctx LHSTy;
            RHSSize = getTypeSize Ctx RHSTy in
        if \<not> (LHSSize = RHSSize \<or> OpCode = Shl \<or> OpCode = LShr \<or> OpCode = AShr
                \<or> is128Int RHS \<or> is128Int LHS) then Inl AssertionFailure
        else
          let Size = max LHSSize RHSSize;
              SignedTy = getIntTypeForBitwidth Ctx Size True in
          if OpCode \<in> {Add, Sub, Mul, And, Or, Xor, UDiv, URem, Shl, LShr} then Inr (LHS, RHS)
          else if OpCode \<in> {SDiv, SRem, AShr} \<or> isICmp OpCode then
            (if \<not> isICmp OpCode \<or> isSignedCmp OpCode then
               bind (if isUnsignedIntegerType RHSTy then createCast Ctx SignedTy RHS
                     else Inr RHS) (\<lambda>Second.
               bind (if isUnsignedIntegerType LHSTy then createCast Ctx SignedTy LHS
                     else Inr LHS) (\<lambda>First.
               Inr (First, Second)))
             else Inr (LHS, RHS))
          else Inl Abort)"

text \<open>The wrapping of an lvalue operand in an lvalue-to-rvalue implicit cast.\<close>

definition toRValue :: "Expr \<Rightarrow> Expr" where
  "toRValue E =
     (if isLValue E then ImplicitCastExpr (getExprType E) CK_LValueToRValue E else E)"

text \<open>
  \<^verbatim>\<open>createRValueExprForBinaryOperator(I)\<close>. The C++ takes an \<^verbatim>\<open>Instruction &\<close>; a value
  that is no instruction cannot reach it, and the model fails on one.
\<close>

fun createRValueExprForBinaryOperator :: "StmtBuilder \<Rightarrow> Value \<Rightarrow> error + Expr" where
  "createRValueExprForBinaryOperator B (Instruction n OpCode T ops) =
     (if length ops \<noteq> 2 then Inl AssertionFailure
      else
        bind (getClangBinaryOpKind OpCode) (\<lambda>BinOpKind.
        bind (getOperand ops 0) (\<lambda>LHSVal.
        bind (getParenthesizedExprForValue B LHSVal) (\<lambda>LHS0.
        bind (getOperand ops 1) (\<lambda>RHSVal.
        bind (getParenthesizedExprForValue B RHSVal) (\<lambda>RHS0.
        bind (getCastedBinaryOperands (ASTCtx B) OpCode (toRValue LHS0) (toRValue RHS0))
          (\<lambda>(LHS, RHS).
             let Res = BinaryOperator LHS RHS BinOpKind (getExprType LHS) in
             if OpCode \<in> {SDiv, SRem, AShr} \<or> isICmp OpCode then
               (let ResType = getQualType B (Instruction n OpCode T ops) in
                createCast (ASTCtx B) ResType (ParenExpr Res))
             else Inr Res)))))))"
| "createRValueExprForBinaryOperator B W = Inl AssertionFailure"

text \<open>
  The recursive functions are unfolded where a proof asks for it, not by the simplifier
  on its own.
\<close>

declare getParenthesizedExprForValue.simps [simp del] getExprForValue.simps [simp del]
  getLiteralFromConstant.simps [simp del] createCast.simps [simp del]
  createRValueExprForBinaryOperator.simps [simp del]

section \<open>Properties stated of the model, and example inputs\<close>

subsection \<open>The layout type system\<close>

text \<open>
  The key invariant in the specification's words: the value is not null; it is a
  function, or has integer or pointer type; and the index is present (not \<open>UINT_MAX\<close>)
  exactly when the value is a function that returns a struct, and is then below the
  struct's number of elements.
\<close>

definition KeyInvariant :: "Value option \<Rightarrow> nat \<Rightarrow> bool" where
  "KeyInvariant Val Idx =
     (case Val of
        None \<Rightarrow> False
      | Some W \<Rightarrow>
          (isFunction W \<or> isIntegerTy (getType W) \<or> isPointerTy (getType W))
          \<and> (case returnedStruct W of
                None \<Rightarrow> Idx = UINT_MAX
              | Some elems \<Rightarrow> Idx \<noteq> UINT_MAX \<and> Idx < length elems))"

text \<open>
  Every neighbour set of the graph lists its links in strictly ascending order of
  (node address, tag address): the order in which a \<^verbatim>\<open>std::set<Link>\<close> iterates.
\<close>

definition NeighborsSorted :: "LayoutTypeSystem \<Rightarrow> bool" where
  "NeighborsSorted TS =
     (\<forall>A N. Layouts TS A = Some N \<longrightarrow>
        sorted_wrt Link_less (Successors N) \<and> sorted_wrt Link_less (Predecessors N))"

text \<open>
  The successors of a node in iteration order, each neighbour replaced by its \<open>ID\<close>:
  what "ascending (neighbor-id, tag-handle) order" speaks of.
\<close>

definition nodeID :: "LayoutTypeSystem \<Rightarrow> NodePtr \<Rightarrow> nat" where
  "nodeID TS N = (case Layouts TS N of None \<Rightarrow> 0 | Some M \<Rightarrow> ID M)"

definition successorIds :: "LayoutTypeSystem \<Rightarrow> NodePtr \<Rightarrow> (nat \<times> TagPtr) list" where
  "successorIds TS A =
     (case Layouts TS A of
        None \<Rightarrow> []
      | Some N \<Rightarrow> map (\<lambda>(M, T). (nodeID TS M, T)) (Successors N))"

text \<open>
  The state the link insertions keep. Neighbour sets are sorted; successors and
  predecessors mirror each other; the tag of every link is interned; links under an
  equality tag run in both directions; and no address holds two tags.
\<close>

definition Consistent :: "LayoutTypeSystem \<Rightarrow> bool" where
  "Consistent TS =
     (NeighborsSorted TS
      \<and> (\<forall>A B T. ((B, T) \<in> succs TS A) = ((A, T) \<in> preds TS B))
      \<and> (\<forall>A B T. (B, T) \<in> succs TS A \<longrightarrow> T \<in> snd ` set (LinkTags TS))
      \<and> (\<forall>Tag T A B. (Tag, T) \<in> set (LinkTags TS) \<and> Kind Tag = LK_Equality \<longrightarrow>
            ((B, T) \<in> succs TS A) = ((A, T) \<in> succs TS B))
      \<and> (\<forall>Tag Tag' T. (Tag, T) \<in> set (LinkTags TS) \<and> (Tag', T) \<in> set (LinkTags TS) \<longrightarrow>
            Tag = Tag'))"

text \<open>The node the constructor \<^verbatim>\<open>LayoutTypeSystemNode(I)\<close> leaves: no links, no layout.\<close>

definition LayoutTypeSystemNode_ctor :: "nat \<Rightarrow> LayoutTypeSystemNode" where
  "LayoutTypeSystemNode_ctor I =
     \<lparr>ID = I, Successors = [], Predecessors = [], L = \<lparr>Accesses = {}, Size = 0\<rparr>\<rparr>"

text \<open>Two fresh nodes, with ids 0 and 1, at the addresses 16 and 32.\<close>

definition twoNodes :: LayoutTypeSystem where
  "twoNodes =
     \<lparr>NID = 2,
      Layouts = [16 \<mapsto> LayoutTypeSystemNode_ctor 0, 32 \<mapsto> LayoutTypeSystemNode_ctor 1],
      TypePtrToLayoutMap = Map.empty,
      LayoutToTypePtrsMap = Map.empty,
      LinkTags = []\<rparr>"

text \<open>
  Three fresh nodes whose addresses fall as their ids rise: id 0 at 48, id 1 at 32,
  id 2 at 16. \<open>invertedLinks\<close> links the node at 16 to the other two, the node of
  id 0 first.
\<close>

definition threeNodes :: LayoutTypeSystem where
  "threeNodes =
     \<lparr>NID = 3,
      Layouts = [48 \<mapsto> LayoutTypeSystemNode_ctor 0, 32 \<mapsto> LayoutTypeSystemNode_ctor 1,
                 16 \<mapsto> LayoutTypeSystemNode_ctor 2],
      TypePtrToLayoutMap = Map.empty,
      LayoutToTypePtrsMap = Map.empty,
      LinkTags = []\<rparr>"

definition invertedLinks :: "error + (LayoutTypeSystem \<times> (TagPtr \<times> bool))" where
  "invertedLinks =
     bind (addInheritanceLink threeNodes 64 16 48) (\<lambda>(G, r). addInheritanceLink G 80 16 32)"

text \<open>A function that returns a struct of two fields, and one that returns an integer.\<close>

definition structFn :: Value where
  "structFn = Function \<lparr>FName = ''pair'', FReturnType = StructTy [IntegerTy 64, IntegerTy 64],
                         FParamTypes = [], FIsVarArg = False\<rparr>"

definition intFn :: Value where
  "intFn = Function \<lparr>FName = ''one'', FReturnType = IntegerTy 64,
                      FParamTypes = [], FIsVarArg = False\<rparr>"

subsection \<open>The AST builder\<close>

text \<open>
  A 64-bit target, and a translation of IR types for the examples: an integer type
  to the unsigned C type of its width (\<^verbatim>\<open>bool\<close> for one bit), a pointer to
  \<^verbatim>\<open>char *\<close>. The theorems below hold of every translation; the examples need one.
\<close>

definition x86_64 :: ASTContext where
  "x86_64 = \<lparr>CharWidth = 8, ShortWidth = 16, IntWidth = 32, LongWidth = 64, LongLongWidth = 64,
             PointerWidth = 64, CharIsSigned = True, UIntPtrType = UnsignedLong\<rparr>"

fun unsignedOfWidth :: "LLVMType \<Rightarrow> QualType" where
  "unsignedOfWidth (IntegerTy w) =
     (if w = 1 then Builtin BT_Bool
      else if w = 8 then Builtin BT_UChar
      else if w = 16 then Builtin BT_UShort
      else if w = 32 then Builtin BT_UInt
      else if w = 64 then Builtin BT_ULong
      else if w = 128 then Builtin BT_UInt128
      else NullTy)"
| "unsignedOfWidth (PointerTy T) = Pointer (Builtin BT_Char_S)"
| "unsignedOfWidth T = NullTy"

text \<open>
  The function \<^verbatim>\<open>i32 f(i32 x, i32 y)\<close>, its declaration, and a builder that has
  built nothing yet; \<open>refX\<close> and \<open>refY\<close> are the rvalues of the two parameters.
\<close>

definition fn :: LLVMFunction where
  "fn = \<lparr>FName = ''f'', FReturnType = IntegerTy 32,
         FParamTypes = [IntegerTy 32, IntegerTy 32], FIsVarArg = False\<rparr>"

definition fnDecl :: Decl where
  "fnDecl = FunctionDecl ''f''
     (FunctionProto (Builtin BT_UInt) [Builtin BT_UInt, Builtin BT_UInt])
     [ParmVarDecl ''x'' (Builtin BT_UInt), ParmVarDecl ''y'' (Builtin BT_UInt)]"

definition builder :: "bool \<Rightarrow> StmtBuilder" where
  "builder ndebug =
     \<lparr>ASTCtx = x86_64, NDEBUG = ndebug,
      getQualType = (\<lambda>W. unsignedOfWidth (getType W)),
      getQualTypeOfType = unsignedOfWidth,
      FunctionDecls = [Function fn \<mapsto> fnDecl],
      GlobalDecls = Map.empty, VarDecls = Map.empty, InstrStmts = Map.empty\<rparr>"

text \<open>A global \<^verbatim>\<open>@g\<close> of type \<^verbatim>\<open>i8*\<close>, and the builder with its declaration.\<close>

definition globalG :: Value where
  "globalG = GlobalVariable ''g'' (PointerTy (IntegerTy 8))"

definition builderG :: "bool \<Rightarrow> StmtBuilder" where
  "builderG ndebug =
     (builder ndebug)\<lparr>GlobalDecls := [globalG \<mapsto> VarDecl ''g'' (Builtin BT_UChar)]\<rparr>"

definition argX :: Value where
  "argX = Argument fn 0 (IntegerTy 32)"

definition argY :: Value where
  "argY = Argument fn 1 (IntegerTy 32)"

definition refX :: Expr where
  "refX = ImplicitCastExpr (Builtin BT_UInt) CK_LValueToRValue
            (DeclRefExpr (ParmVarDecl ''x'' (Builtin BT_UInt)) (Builtin BT_UInt) VK_LValue)"

definition refY :: Expr where
  "refY = ImplicitCastExpr (Builtin BT_UInt) CK_LValueToRValue
            (DeclRefExpr (ParmVarDecl ''y'' (Builtin BT_UInt)) (Builtin BT_UInt) VK_LValue)"

section \<open>Properties of the layout type system\<close>

lemma bind_Inr [simp]: "bind (Inr x) f = f x"
  by (simp add: bind_def)

lemma bind_Inl [simp]: "bind (Inl e) f = Inl e"
  by (simp add: bind_def)

lemma revng_assert_True [simp]: "revng_assert True = Inr ()"
  by (simp add: revng_assert_def)

lemma revng_assert_False [simp]: "revng_assert False = Inl AssertionFailure"
  by (simp add: revng_assert_def)

subsection \<open>Insertion into a set\<close>

lemma std_set_insert_again:
  assumes irr: "\<And>a. \<not> lt a a"
  shows "std_set_insert lt x xs = (ys, it, new) \<Longrightarrow> std_set_insert lt x ys = (ys, it, False)"
proof (induction xs arbitrary: ys it new)
  case Nil
  then show ?case by (auto simp: irr)
next
  case (Cons y xs)
  show ?case
  proof (cases "lt x y")
    case True
    with Cons.prems show ?thesis by (auto simp: irr)
  next
    case False
    show ?thesis
    proof (cases "lt y x")
      case True
      obtain zs it' new' where r: "std_set_insert lt x xs = (zs, it', new')"
        by (cases "std_set_insert lt x xs") auto
      from Cons.IH [OF r] Cons.prems r \<open>\<not> lt x y\<close> True show ?thesis by auto
    next
      case False
      with Cons.prems \<open>\<not> lt x y\<close> show ?thesis by auto
    qed
  qed
qed

lemma Link_less_irrefl: "\<not> Link_less a a"
  by (cases a) simp

lemma Link_less_trans: "Link_less a b \<Longrightarrow> Link_less b c \<Longrightarrow> Link_less a c"
  by (cases a; cases b; cases c) auto

lemma Link_less_total: "\<not> Link_less a b \<Longrightarrow> \<not> Link_less b a \<Longrightarrow> a = b"
  by (cases a; cases b) auto

lemma Link_insert_it: "std_set_insert Link_less x xs = (ys, it, new) \<Longrightarrow> it = x"
proof (induction xs arbitrary: ys it new)
  case Nil then show ?case by auto
next
  case (Cons y xs)
  then show ?case
    by (auto split: if_splits prod.splits dest: Link_less_total)
qed

lemma Link_insert_set: "std_set_insert Link_less x xs = (ys, it, new) \<Longrightarrow> set ys = insert x (set xs)"
proof (induction xs arbitrary: ys it new)
  case Nil then show ?case by auto
next
  case (Cons y xs)
  then show ?case
    by (fastforce split: if_splits prod.splits dest: Link_less_total)
qed

lemma Link_insert_old: "std_set_insert Link_less x xs = (ys, it, False) \<Longrightarrow> x \<in> set xs \<and> ys = xs"
proof (induction xs arbitrary: ys it)
  case Nil then show ?case by auto
next
  case (Cons y xs)
  then show ?case
    by (fastforce split: if_splits prod.splits dest: Link_less_total)
qed

lemma Link_insert_new:
  "sorted_wrt Link_less xs \<Longrightarrow> std_set_insert Link_less x xs = (ys, it, True) \<Longrightarrow> x \<notin> set xs"
proof (induction xs arbitrary: ys it)
  case Nil then show ?case by auto
next
  case (Cons y xs)
  then show ?case
    by (fastforce split: if_splits prod.splits dest: Link_less_trans simp: Link_less_irrefl)
qed

lemma Link_insert_sorted:
  "sorted_wrt Link_less xs \<Longrightarrow> std_set_insert Link_less x xs = (ys, it, new) \<Longrightarrow> sorted_wrt Link_less ys"
proof (induction xs arbitrary: ys it new)
  case Nil then show ?case by auto
next
  case (Cons y xs)
  show ?case
  proof (cases "Link_less x y")
    case True
    with Cons.prems show ?thesis by auto (blast intro: Link_less_trans)
  next
    case False
    show ?thesis
    proof (cases "Link_less y x")
      case True
      obtain zs it' new' where r: "std_set_insert Link_less x xs = (zs, it', new')"
        by (cases "std_set_insert Link_less x xs") auto
      from Cons.prems have s: "sorted_wrt Link_less xs" by simp
      have "sorted_wrt Link_less zs" by (rule Cons.IH [OF s r])
      moreover have "set zs = insert x (set xs)" by (rule Link_insert_set [OF r])
      ultimately show ?thesis using Cons.prems r True \<open>\<not> Link_less x y\<close> by auto
    next
      case False
      with Cons.prems \<open>\<not> Link_less x y\<close> show ?thesis by auto
    qed
  qed
qed

lemma Link_insert_present:
  "sorted_wrt Link_less xs \<Longrightarrow> x \<in> set xs \<Longrightarrow> std_set_insert Link_less x xs = (xs, x, False)"
proof -
  assume s: "sorted_wrt Link_less xs" and m: "x \<in> set xs"
  obtain ys it new where r: "std_set_insert Link_less x xs = (ys, it, new)"
    by (cases "std_set_insert Link_less x xs") auto
  have "\<not> new" using Link_insert_new [OF s, of x ys it] r m by (cases new) auto
  with r Link_insert_old [of x xs ys it] Link_insert_it [OF r] show ?thesis by auto
qed

subsection \<open>Null endpoints and self-links\<close>

lemma addLink_drops:
  "Src = nullptr \<or> Tgt = nullptr \<or> Src = Tgt \<Longrightarrow>
     addLink TS n Src Tgt Tag = Inr (TS, (nullptr, False))"
  by (simp add: addLink_def)

text \<open>
  C7. A link insertion (equality, inheritance or instance) with a null endpoint, or
  with the same node at both ends, returns the null tag handle and \<open>False\<close> and leaves
  the whole graph as it was.
\<close>

theorem link_insertion_drops_null_and_self:
  assumes "Src = nullptr \<or> Tgt = nullptr \<or> Src = Tgt"
  shows "addEqualityLink TS n1 n2 Src Tgt = Inr (TS, (nullptr, False))
       \<and> addInheritanceLink TS n Src Tgt = Inr (TS, (nullptr, False))
       \<and> addInstanceLink TS n Src Tgt O' = Inr (TS, (nullptr, False))"
proof -
  from assms have rev: "Tgt = nullptr \<or> Src = nullptr \<or> Tgt = Src" by auto
  show ?thesis
    by (simp add: addEqualityLink_def addInheritanceLink_def addInstanceLink_def
        addLink_drops [OF assms] addLink_drops [OF rev])
qed

theorem link_insertion_drops_null_and_self_witness:
  "addEqualityLink twoNodes 64 80 16 16 = Inr (twoNodes, (nullptr, False))
   \<and> addInheritanceLink twoNodes 64 16 16 = Inr (twoNodes, (nullptr, False))
   \<and> addInstanceLink twoNodes 64 16 16 (OffsetExpression_ctor 8) = Inr (twoNodes, (nullptr, False))"
  using link_insertion_drops_null_and_self
    [of 16 16 twoNodes 64 80 64 "OffsetExpression_ctor 8"]
  by simp

subsection \<open>The comparison of tags\<close>

text \<open>
  No tag is below itself, and two tags neither of which is below the other are the same
  tag: the set \<^verbatim>\<open>LinkTags\<close> tells tags apart exactly as structural equality does.
\<close>

lemma compare_three_way_refl [simp]: "compare_three_way a a = so_equal"
  by (simp add: compare_three_way_def)

lemma lexicographical_compare_irrefl:
  "(\<And>a. \<not> lt a a) \<Longrightarrow> \<not> lexicographical_compare lt xs xs"
  by (induction xs) auto

lemma optional_less_irrefl: "\<not> optional_less a a"
  by (cases a) auto

lemma OffsetExpression_cmp_refl: "OffsetExpression_cmp A A = so_equal"
  by (simp add: OffsetExpression_cmp_def lexicographical_compare_irrefl optional_less_irrefl)

lemma TypeLinkTag_cmp_refl: "TypeLinkTag_cmp A A = so_equal"
  by (simp add: TypeLinkTag_cmp_def OffsetExpression_cmp_refl)

lemma TypeLinkTag_less_irrefl: "\<not> TypeLinkTag_less A A"
  by (simp add: TypeLinkTag_less_def TypeLinkTag_cmp_refl)

lemma lexicographical_compare_total:
  assumes tot: "\<And>a b. \<not> lt a b \<Longrightarrow> \<not> lt b a \<Longrightarrow> a = b"
  shows "\<not> lexicographical_compare lt xs ys \<Longrightarrow> \<not> lexicographical_compare lt ys xs \<Longrightarrow> xs = ys"
proof (induction xs arbitrary: ys)
  case Nil
  then show ?case by (cases ys) auto
next
  case (Cons x xs)
  show ?case
  proof (cases ys)
    case Nil
    with Cons.prems show ?thesis by simp
  next
    case (Cons y ys')
    with Cons.prems have n: "\<not> lt x y" "\<not> lt y x"
      by (auto split: if_splits)
    then have "x = y" by (rule tot)
    moreover from Cons.prems Cons n have "xs = ys'"
      by (intro Cons.IH) auto
    ultimately show ?thesis using Cons by simp
  qed
qed

lemma optional_less_total: "\<not> optional_less a b \<Longrightarrow> \<not> optional_less b a \<Longrightarrow> a = b"
  by (cases a; cases b) auto

lemma OffsetExpression_cmp_total:
  assumes "OffsetExpression_cmp A B \<noteq> so_less" "OffsetExpression_cmp B A \<noteq> so_less"
  shows "A = B"
proof -
  from assms have o: "Offset A = Offset B"
    by (auto simp: OffsetExpression_cmp_def compare_three_way_def Let_def split: if_splits)
  with assms have s: "\<not> lexicographical_compare (<) (Strides A) (Strides B)"
      "\<not> lexicographical_compare (<) (Strides B) (Strides A)"
    by (auto simp: OffsetExpression_cmp_def Let_def split: if_splits)
  then have s': "Strides A = Strides B"
    by (rule lexicographical_compare_total [rotated]) auto
  from assms o s have "\<not> lexicographical_compare optional_less (TripCounts A) (TripCounts B)"
      "\<not> lexicographical_compare optional_less (TripCounts B) (TripCounts A)"
    by (auto simp: OffsetExpression_cmp_def Let_def split: if_splits)
  then have "TripCounts A = TripCounts B"
    by (rule lexicographical_compare_total [rotated]) (rule optional_less_total)
  with o s' show ?thesis by simp
qed

lemma LinkKind_value_inj: "LinkKind_value a = LinkKind_value b \<Longrightarrow> a = b"
  by (cases a; cases b) auto

lemma TypeLinkTag_less_total:
  assumes "\<not> TypeLinkTag_less A B" "\<not> TypeLinkTag_less B A"
  shows "A = B"
proof -
  from assms have k: "LinkKind_value (Kind A) = LinkKind_value (Kind B)"
    by (auto simp: TypeLinkTag_less_def TypeLinkTag_cmp_def compare_three_way_def Let_def
        split: if_splits)
  with assms have "OffsetExpression_cmp (OE A) (OE B) \<noteq> so_less"
      "OffsetExpression_cmp (OE B) (OE A) \<noteq> so_less"
    by (auto simp: TypeLinkTag_less_def TypeLinkTag_cmp_def Let_def split: if_splits)
  then have "OE A = OE B" by (rule OffsetExpression_cmp_total)
  with k show ?thesis by (simp add: LinkKind_value_inj)
qed

text \<open>
  X2. Two tags are equivalent under the order of \<^verbatim>\<open>LinkTags\<close> (neither is below the
  other) exactly when they are the same tag: same kind, offset, strides and trip
  counts.
\<close>

theorem tag_order_tells_tags_apart:
  "(\<not> TypeLinkTag_less A B \<and> \<not> TypeLinkTag_less B A) = (A = B)"
  using TypeLinkTag_less_total [of A B] TypeLinkTag_less_irrefl [of A] by blast

subsection \<open>Interning a tag\<close>

text \<open>
  Looking a tag up again finds the element the first insertion returned, whatever
  address the allocator offers the second time.
\<close>

lemma LinkTags_insert_again:
  "std_set_insert LinkTags_less (Tag, n) xs = (ys, it, new) \<Longrightarrow>
     std_set_insert LinkTags_less (Tag, n') ys = (ys, it, False)"
proof (induction xs arbitrary: ys it new)
  case Nil
  then show ?case by (auto simp: TypeLinkTag_less_irrefl)
next
  case (Cons y xs)
  obtain B q where y: "y = (B, q)" by (cases y)
  show ?case
  proof (cases "TypeLinkTag_less Tag B")
    case True
    with Cons.prems y show ?thesis by (auto simp: TypeLinkTag_less_irrefl)
  next
    case False
    show ?thesis
    proof (cases "TypeLinkTag_less B Tag")
      case True
      obtain zs it' new' where r: "std_set_insert LinkTags_less (Tag, n) xs = (zs, it', new')"
        by (cases "std_set_insert LinkTags_less (Tag, n) xs") auto
      from Cons.IH [OF r] Cons.prems r y \<open>\<not> TypeLinkTag_less Tag B\<close> True show ?thesis by auto
    next
      case False
      with Cons.prems y \<open>\<not> TypeLinkTag_less Tag B\<close> show ?thesis by auto
    qed
  qed
qed

text \<open>
  Either an element with this very tag is there already and is returned, or the tag
  goes in at the offered address.
\<close>

lemma LinkTags_insert_cases:
  assumes "std_set_insert LinkTags_less (Tag, n) xs = (ys, It, new)"
  shows "(\<not> new \<and> ys = xs \<and> It \<in> set xs \<and> fst It = Tag)
       \<or> (new \<and> It = (Tag, n) \<and> set ys = insert (Tag, n) (set xs))"
  using assms
proof (induction xs arbitrary: ys It new)
  case Nil
  then show ?case by auto
next
  case (Cons y xs)
  obtain B q where y: "y = (B, q)" by (cases y)
  show ?case
  proof (cases "TypeLinkTag_less Tag B")
    case True
    with Cons.prems y show ?thesis by auto
  next
    case False
    show ?thesis
    proof (cases "TypeLinkTag_less B Tag")
      case True
      obtain zs it' new' where r: "std_set_insert LinkTags_less (Tag, n) xs = (zs, it', new')"
        by (cases "std_set_insert LinkTags_less (Tag, n) xs") auto
      from Cons.IH [OF r] Cons.prems r y \<open>\<not> TypeLinkTag_less Tag B\<close> True show ?thesis by auto
    next
      case False
      with \<open>\<not> TypeLinkTag_less Tag B\<close> have "Tag = B" by (rule TypeLinkTag_less_total)
      with Cons.prems y \<open>\<not> TypeLinkTag_less Tag B\<close> False show ?thesis by auto
    qed
  qed
qed

lemma LinkTags_insert_unique:
  assumes "std_set_insert LinkTags_less (Tag, n) xs = (ys, It, b)"
    and "n \<notin> snd ` set xs"
    and "\<forall>G G' T. (G, T) \<in> set xs \<longrightarrow> (G', T) \<in> set xs \<longrightarrow> G = G'"
  shows "\<forall>G G' T. (G, T) \<in> set ys \<longrightarrow> (G', T) \<in> set ys \<longrightarrow> G = G'"
proof (cases b)
  case False
  with LinkTags_insert_cases [OF assms(1)] assms(3) show ?thesis by auto
next
  case True
  with LinkTags_insert_cases [OF assms(1)] have ys: "set ys = insert (Tag, n) (set xs)"
    by auto
  from assms(2) have "\<And>G. (G, n) \<notin> set xs" by force
  with ys assms(3) show ?thesis by auto
qed

subsection \<open>What addLink does\<close>

lemma Link_insert_new_iff:
  "sorted_wrt Link_less xs \<Longrightarrow> std_set_insert Link_less x xs = (ys, it, new) \<Longrightarrow>
     new = (x \<notin> set xs)"
  using Link_insert_new [of xs x ys it] Link_insert_old [of x xs ys it] by (cases new) auto

lemma Link_insert_split:
  "std_set_insert Link_less x xs = (ys, it, True) \<Longrightarrow> \<exists>us vs. xs = us @ vs \<and> ys = us @ x # vs"
proof (induction xs arbitrary: ys it)
  case Nil
  then show ?case by auto
next
  case (Cons y xs)
  show ?case
  proof (cases "Link_less x y")
    case True
    with Cons.prems have "ys = [] @ x # (y # xs)" by auto
    then show ?thesis by blast
  next
    case False
    with Cons.prems have l: "Link_less y x" by (auto split: if_splits)
    obtain zs it' new' where r: "std_set_insert Link_less x xs = (zs, it', new')"
      by (cases "std_set_insert Link_less x xs") auto
    with Cons.prems False l have e: "ys = y # zs" "new'" by auto
    from Cons.IH [of zs it'] r e obtain us vs where "xs = us @ vs" "zs = us @ x # vs" by auto
    with e have "y # xs = (y # us) @ vs \<and> ys = (y # us) @ x # vs" by simp
    then show ?thesis by blast
  qed
qed

lemma Link_insert_filter:
  assumes "std_set_insert Link_less x xs = (ys, it, True)" "filter P xs = []" "P x"
  shows "filter P ys = [x]"
proof -
  from Link_insert_split [OF assms(1)] obtain us vs where "xs = us @ vs" "ys = us @ x # vs"
    by auto
  with assms(2,3) show ?thesis by simp
qed

lemma addLink_Inr:
  assumes "Src \<noteq> nullptr" "Tgt \<noteq> nullptr" "Src \<noteq> Tgt"
    and "Layouts TS Src = Some SrcNode" "Layouts TS Tgt = Some TgtNode"
    and "std_set_insert LinkTags_less (Tag, n) (LinkTags TS) = (Tags', It, b)"
    and "std_set_insert Link_less (Tgt, snd It) (Successors SrcNode) = (Succ', i1, New1)"
    and "std_set_insert Link_less (Src, snd It) (Predecessors TgtNode) = (Pred', i2, New2)"
  shows "addLink TS n Src Tgt Tag =
           Inr (TS\<lparr>Layouts := (Layouts TS)(Src \<mapsto> SrcNode\<lparr>Successors := Succ'\<rparr>,
                                             Tgt \<mapsto> TgtNode\<lparr>Predecessors := Pred'\<rparr>),
                   LinkTags := Tags'\<rparr>,
                (snd It, New1 \<or> New2))"
  using assms by (simp add: addLink_def)

lemma addLink_cases:
  assumes "addLink TS n Src Tgt Tag = Inr (TS1, (T, New))"
  obtains (dropped) "Src = nullptr \<or> Tgt = nullptr \<or> Src = Tgt" "TS1 = TS" "T = nullptr" "\<not> New"
  | (linked) SrcNode TgtNode Tags' It b Succ' i1 New1 Pred' i2 New2 where
      "Src \<noteq> nullptr" "Tgt \<noteq> nullptr" "Src \<noteq> Tgt"
      "Layouts TS Src = Some SrcNode" "Layouts TS Tgt = Some TgtNode"
      "std_set_insert LinkTags_less (Tag, n) (LinkTags TS) = (Tags', It, b)"
      "std_set_insert Link_less (Tgt, T) (Successors SrcNode) = (Succ', i1, New1)"
      "std_set_insert Link_less (Src, T) (Predecessors TgtNode) = (Pred', i2, New2)"
      "T = snd It" "New = (New1 \<or> New2)"
      "TS1 = TS\<lparr>Layouts := (Layouts TS)(Src \<mapsto> SrcNode\<lparr>Successors := Succ'\<rparr>,
                                             Tgt \<mapsto> TgtNode\<lparr>Predecessors := Pred'\<rparr>),
                   LinkTags := Tags'\<rparr>"
proof (cases "Src = nullptr \<or> Tgt = nullptr \<or> Src = Tgt")
  case True
  with assms dropped show ?thesis by (auto simp: addLink_def)
next
  case False
  then have nn: "Src \<noteq> nullptr" "Tgt \<noteq> nullptr" "Src \<noteq> Tgt" by auto
  from assms False obtain SrcNode where sn: "Layouts TS Src = Some SrcNode"
    by (cases "Layouts TS Src") (simp_all add: addLink_def)
  from assms False sn obtain TgtNode where tn: "Layouts TS Tgt = Some TgtNode"
    by (cases "Layouts TS Tgt") (simp_all add: addLink_def)
  obtain Tags' It b where
    t: "std_set_insert LinkTags_less (Tag, n) (LinkTags TS) = (Tags', It, b)"
    by (cases "std_set_insert LinkTags_less (Tag, n) (LinkTags TS)") auto
  obtain Succ' i1 New1 where
    s: "std_set_insert Link_less (Tgt, snd It) (Successors SrcNode) = (Succ', i1, New1)"
    by (cases "std_set_insert Link_less (Tgt, snd It) (Successors SrcNode)") auto
  obtain Pred' i2 New2 where
    p: "std_set_insert Link_less (Src, snd It) (Predecessors TgtNode) = (Pred', i2, New2)"
    by (cases "std_set_insert Link_less (Src, snd It) (Predecessors TgtNode)") auto
  from addLink_Inr [OF nn sn tn t s p] assms
  have r: "TS1 = TS\<lparr>Layouts := (Layouts TS)(Src \<mapsto> SrcNode\<lparr>Successors := Succ'\<rparr>,
                                             Tgt \<mapsto> TgtNode\<lparr>Predecessors := Pred'\<rparr>),
                   LinkTags := Tags'\<rparr>" "T = snd It" "New = (New1 \<or> New2)"
    by simp_all
  show ?thesis
    using linked [OF nn sn tn t _ _ r(2,3,1)] s p r(2) by simp
qed

lemma addLink_again:
  assumes "addLink TS n Src Tgt Tag = Inr (TS1, (T, New))"
  shows "addLink TS1 n' Src Tgt Tag = Inr (TS1, (T, False))"
  using assms
proof (cases rule: addLink_cases)
  case dropped
  then show ?thesis by (simp add: addLink_def)
next
  case (linked SrcNode TgtNode Tags' It b Succ' i1 New1 Pred' i2 New2)
  have tags: "std_set_insert LinkTags_less (Tag, n') (LinkTags TS1) = (Tags', It, False)"
    using LinkTags_insert_again [OF linked(6)] linked(11) by simp
  have s: "std_set_insert Link_less (Tgt, snd It) (Successors (SrcNode\<lparr>Successors := Succ'\<rparr>))
             = (Succ', i1, False)"
    using std_set_insert_again [of Link_less, OF Link_less_irrefl linked(7)] linked(9) by simp
  have p: "std_set_insert Link_less (Src, snd It) (Predecessors (TgtNode\<lparr>Predecessors := Pred'\<rparr>))
             = (Pred', i2, False)"
    using std_set_insert_again [of Link_less, OF Link_less_irrefl linked(8)] linked(9) by simp
  have l1: "Layouts TS1 Src = Some (SrcNode\<lparr>Successors := Succ'\<rparr>)"
    using linked(3,11) by simp
  have l2: "Layouts TS1 Tgt = Some (TgtNode\<lparr>Predecessors := Pred'\<rparr>)"
    using linked(11) by simp
  show ?thesis
    using addLink_Inr [OF linked(1,2,3) l1 l2 tags s p] linked(9,11) by simp
qed

lemma addLink_sorted:
  assumes "NeighborsSorted TS" "addLink TS n Src Tgt Tag = Inr (TS1, r)"
  shows "NeighborsSorted TS1"
proof -
  obtain T New where r: "r = (T, New)" by (cases r)
  from assms(2) [unfolded r] show ?thesis
  proof (cases rule: addLink_cases)
    case dropped
    with assms(1) show ?thesis by simp
  next
    case (linked SrcNode TgtNode Tags' It b Succ' i1 New1 Pred' i2 New2)
    from assms(1) linked(4) have "sorted_wrt Link_less (Successors SrcNode)"
      "sorted_wrt Link_less (Predecessors SrcNode)"
      by (auto simp: NeighborsSorted_def)
    moreover from assms(1) linked(5) have "sorted_wrt Link_less (Predecessors TgtNode)"
      "sorted_wrt Link_less (Successors TgtNode)"
      by (auto simp: NeighborsSorted_def)
    ultimately have "sorted_wrt Link_less Succ'" "sorted_wrt Link_less Pred'"
      "sorted_wrt Link_less (Predecessors SrcNode)" "sorted_wrt Link_less (Successors TgtNode)"
      using Link_insert_sorted linked(7,8) by blast+
    with assms(1) linked(11) show ?thesis
      by (auto simp: NeighborsSorted_def)
  qed
qed

lemma addEqualityLink_sorted:
  assumes "NeighborsSorted TS" "addEqualityLink TS n1 n2 A B = Inr (TS1, r)"
  shows "NeighborsSorted TS1"
proof -
  from assms(2) obtain TSf rf rb where
    f: "addLink TS n1 A B equalityTag = Inr (TSf, rf)"
    and b: "addLink TSf n2 B A equalityTag = Inr (TS1, rb)"
    by (auto simp: addEqualityLink_def bind_def revng_assert_def split: sum.splits if_splits)
  from addLink_sorted [OF addLink_sorted [OF assms(1) f] b] show ?thesis .
qed

lemma addLink_effect:
  assumes "NeighborsSorted TS" "Src \<noteq> nullptr" "Tgt \<noteq> nullptr" "Src \<noteq> Tgt"
    and "Layouts TS Src = Some SrcNode" "Layouts TS Tgt = Some TgtNode"
    and "std_set_insert LinkTags_less (Tag, n) (LinkTags TS) = (Tags', It, b)"
  shows "\<exists>TS1. addLink TS n Src Tgt Tag =
                  Inr (TS1, (snd It, (Tgt, snd It) \<notin> succs TS Src \<or> (Src, snd It) \<notin> preds TS Tgt))
           \<and> succs TS1 = (succs TS)(Src := insert (Tgt, snd It) (succs TS Src))
           \<and> preds TS1 = (preds TS)(Tgt := insert (Src, snd It) (preds TS Tgt))
           \<and> LinkTags TS1 = Tags' \<and> NeighborsSorted TS1
           \<and> dom (Layouts TS1) = dom (Layouts TS)"
proof -
  obtain Succ' i1 New1 where
    s: "std_set_insert Link_less (Tgt, snd It) (Successors SrcNode) = (Succ', i1, New1)"
    by (cases "std_set_insert Link_less (Tgt, snd It) (Successors SrcNode)") auto
  obtain Pred' i2 New2 where
    p: "std_set_insert Link_less (Src, snd It) (Predecessors TgtNode) = (Pred', i2, New2)"
    by (cases "std_set_insert Link_less (Src, snd It) (Predecessors TgtNode)") auto
  define TS1 where "TS1 = TS\<lparr>Layouts := (Layouts TS)(Src \<mapsto> SrcNode\<lparr>Successors := Succ'\<rparr>,
                                             Tgt \<mapsto> TgtNode\<lparr>Predecessors := Pred'\<rparr>),
                   LinkTags := Tags'\<rparr>"
  have r: "addLink TS n Src Tgt Tag = Inr (TS1, (snd It, New1 \<or> New2))"
    using addLink_Inr [OF assms(2-7) s p] by (simp add: TS1_def)
  from assms(1,5,6) have so: "sorted_wrt Link_less (Successors SrcNode)"
      "sorted_wrt Link_less (Predecessors TgtNode)"
    by (auto simp: NeighborsSorted_def)
  have n1: "New1 = ((Tgt, snd It) \<notin> succs TS Src)"
    using Link_insert_new_iff [OF so(1) s] assms(5) by (simp add: succs_def)
  have n2: "New2 = ((Src, snd It) \<notin> preds TS Tgt)"
    using Link_insert_new_iff [OF so(2) p] assms(6) by (simp add: preds_def)
  have su: "succs TS1 = (succs TS)(Src := insert (Tgt, snd It) (succs TS Src))"
    using Link_insert_set [OF s] assms(4,5,6)
    by (auto simp: fun_eq_iff succs_def TS1_def)
  have pr: "preds TS1 = (preds TS)(Tgt := insert (Src, snd It) (preds TS Tgt))"
    using Link_insert_set [OF p] assms(4,5,6)
    by (auto simp: fun_eq_iff preds_def TS1_def)
  have "NeighborsSorted TS1" using addLink_sorted [OF assms(1) r] .
  moreover have "dom (Layouts TS1) = dom (Layouts TS)"
    using assms(5,6) by (auto simp: TS1_def)
  moreover have "LinkTags TS1 = Tags'" by (simp add: TS1_def)
  ultimately show ?thesis using r n1 n2 su pr by blast
qed

lemma addLink_present:
  assumes "NeighborsSorted TS" "Src \<noteq> nullptr" "Tgt \<noteq> nullptr" "Src \<noteq> Tgt"
    and "Src \<in> dom (Layouts TS)" "Tgt \<in> dom (Layouts TS)"
    and "std_set_insert LinkTags_less (Tag, n) (LinkTags TS) = (LinkTags TS, It, False)"
    and "(Tgt, snd It) \<in> succs TS Src" "(Src, snd It) \<in> preds TS Tgt"
  shows "addLink TS n Src Tgt Tag = Inr (TS, (snd It, False))"
proof -
  from assms(5,6) obtain SrcNode TgtNode where
    l: "Layouts TS Src = Some SrcNode" "Layouts TS Tgt = Some TgtNode" by auto
  from assms(1) l have so: "sorted_wrt Link_less (Successors SrcNode)"
      "sorted_wrt Link_less (Predecessors TgtNode)"
    by (auto simp: NeighborsSorted_def)
  from assms(8) l have "(Tgt, snd It) \<in> set (Successors SrcNode)" by (simp add: succs_def)
  then have s: "std_set_insert Link_less (Tgt, snd It) (Successors SrcNode)
                  = (Successors SrcNode, (Tgt, snd It), False)"
    by (rule Link_insert_present [OF so(1)])
  from assms(9) l have "(Src, snd It) \<in> set (Predecessors TgtNode)" by (simp add: preds_def)
  then have p: "std_set_insert Link_less (Src, snd It) (Predecessors TgtNode)
                  = (Predecessors TgtNode, (Src, snd It), False)"
    by (rule Link_insert_present [OF so(2)])
  have "(Layouts TS)(Src \<mapsto> SrcNode, Tgt \<mapsto> TgtNode) = Layouts TS"
    using l by (auto simp: fun_eq_iff)
  then show ?thesis
    using addLink_Inr [OF assms(2-4) l assms(7) s p] by simp
qed

subsection \<open>Inserting an instance link twice\<close>

text \<open>
  C6. Let \<open>A\<close> and \<open>B\<close> be two distinct nodes of the graph with no link from \<open>A\<close> to
  \<open>B\<close> yet. Two calls of \<^verbatim>\<open>addInstanceLink(A, B, OE)\<close> with the same offset expression
  return the same tag handle \<open>T\<close>, the first with \<open>True\<close> and the second with \<open>False\<close>,
  and the second call leaves the graph as the first left it. The handle is that of
  the interned tag: after the calls \<^verbatim>\<open>LinkTags\<close> holds the tag \<^verbatim>\<open>Instance(OE)\<close> at \<open>T\<close>;
  either it held that tag at \<open>T\<close> before and is unchanged, or \<open>T\<close> is the address the
  first call's allocation offered and this one tag is what \<^verbatim>\<open>LinkTags\<close> gained. The
  second call's allocation is not used. Afterwards \<open>A\<close> has exactly one link to \<open>B\<close>
  among its successors and \<open>B\<close> exactly one link from \<open>A\<close> among its predecessors,
  both under \<open>T\<close>.
\<close>

theorem add_instance_twice:
  assumes "A \<noteq> nullptr" "B \<noteq> nullptr" "A \<noteq> B"
    and "Layouts TS A = Some NA" "Layouts TS B = Some NB"
    and "filter (\<lambda>l. fst l = B) (Successors NA) = []"
    and "filter (\<lambda>l. fst l = A) (Predecessors NB) = []"
  shows "\<exists>TS1 T. addInstanceLink TS n A B O' = Inr (TS1, (T, True))
           \<and> addInstanceLink TS1 n' A B O' = Inr (TS1, (T, False))
           \<and> (instanceTag O', T) \<in> set (LinkTags TS1)
           \<and> ((instanceTag O', T) \<in> set (LinkTags TS) \<and> LinkTags TS1 = LinkTags TS
                \<or> T = n \<and> set (LinkTags TS1) = insert (instanceTag O', n) (set (LinkTags TS)))
           \<and> filter (\<lambda>l. fst l = B) (Successors (the (Layouts TS1 A))) = [(B, T)]
           \<and> filter (\<lambda>l. fst l = A) (Predecessors (the (Layouts TS1 B))) = [(A, T)]"
proof -
  obtain Tags' It b where
    t: "std_set_insert LinkTags_less (instanceTag O', n) (LinkTags TS) = (Tags', It, b)"
    by (cases "std_set_insert LinkTags_less (instanceTag O', n) (LinkTags TS)") auto
  obtain Succ' i1 New1 where
    s: "std_set_insert Link_less (B, snd It) (Successors NA) = (Succ', i1, New1)"
    by (cases "std_set_insert Link_less (B, snd It) (Successors NA)") auto
  obtain Pred' i2 New2 where
    p: "std_set_insert Link_less (A, snd It) (Predecessors NB) = (Pred', i2, New2)"
    by (cases "std_set_insert Link_less (A, snd It) (Predecessors NB)") auto
  define TS1 where "TS1 = TS\<lparr>Layouts := (Layouts TS)(A \<mapsto> NA\<lparr>Successors := Succ'\<rparr>,
                                             B \<mapsto> NB\<lparr>Predecessors := Pred'\<rparr>),
                   LinkTags := Tags'\<rparr>"
  have tags: "LinkTags TS1 = Tags'" by (simp add: TS1_def)
  have "(B, snd It) \<notin> set (Successors NA)"
    using assms(6) by (auto simp: filter_empty_conv)
  with Link_insert_old [of "(B, snd It)" "Successors NA" Succ' i1] s have n1: New1
    by (cases New1) auto
  have "(A, snd It) \<notin> set (Predecessors NB)"
    using assms(7) by (auto simp: filter_empty_conv)
  with Link_insert_old [of "(A, snd It)" "Predecessors NB" Pred' i2] p have n2: New2
    by (cases New2) auto
  have first: "addInstanceLink TS n A B O' = Inr (TS1, (snd It, True))"
    using addLink_Inr [OF assms(1-5) t s p] n1 by (simp add: addInstanceLink_def TS1_def)
  then have second: "addInstanceLink TS1 n' A B O' = Inr (TS1, (snd It, False))"
    unfolding addInstanceLink_def by (rule addLink_again)
  from LinkTags_insert_cases [OF t]
  have "(Tags' = LinkTags TS \<and> It \<in> set (LinkTags TS) \<and> fst It = instanceTag O')
        \<or> (It = (instanceTag O', n)
            \<and> set Tags' = insert (instanceTag O', n) (set (LinkTags TS)))"
    by blast
  then have interned:
    "(instanceTag O', snd It) \<in> set (LinkTags TS1)"
    "(instanceTag O', snd It) \<in> set (LinkTags TS) \<and> LinkTags TS1 = LinkTags TS
       \<or> snd It = n \<and> set (LinkTags TS1) = insert (instanceTag O', n) (set (LinkTags TS))"
    unfolding tags by (cases It; auto)+
  have "filter (\<lambda>l. fst l = B) Succ' = [(B, snd It)]"
    using Link_insert_filter [OF _ assms(6)] s n1 by simp
  moreover have "filter (\<lambda>l. fst l = A) Pred' = [(A, snd It)]"
    using Link_insert_filter [OF _ assms(7)] p n2 by simp
  ultimately have single:
    "filter (\<lambda>l. fst l = B) (Successors (the (Layouts TS1 A))) = [(B, snd It)]"
    "filter (\<lambda>l. fst l = A) (Predecessors (the (Layouts TS1 B))) = [(A, snd It)]"
    using assms(3) by (simp_all add: TS1_def)
  from first second interned single show ?thesis by blast
qed

text \<open>
  In the graph of two nodes, which has no tag yet, the tag is interned at the address
  64 that the first call offers; the address 80 offered by the second is not used.
\<close>

theorem add_instance_twice_witness:
  "\<exists>TS1. addInstanceLink twoNodes 64 16 32 (OffsetExpression_ctor 0) = Inr (TS1, (64, True))
           \<and> addInstanceLink TS1 80 16 32 (OffsetExpression_ctor 0) = Inr (TS1, (64, False))
           \<and> set (LinkTags TS1) = {(instanceTag (OffsetExpression_ctor 0), 64)}
           \<and> filter (\<lambda>l. fst l = 32) (Successors (the (Layouts TS1 16))) = [(32, 64)]
           \<and> filter (\<lambda>l. fst l = 16) (Predecessors (the (Layouts TS1 32))) = [(16, 64)]"
  using add_instance_twice [of 16 32 twoNodes "LayoutTypeSystemNode_ctor 0"
      "LayoutTypeSystemNode_ctor 1" 64 "OffsetExpression_ctor 0" 80]
  by (auto simp: nullptr_def twoNodes_def LayoutTypeSystemNode_ctor_def)

subsection \<open>The iteration order of neighbour sets\<close>

text \<open>
  C3, as stated, fails: a neighbour set is ordered by the addresses of the nodes, not
  by their ids. On three nodes whose addresses fall as their ids rise, the node at
  address 16 is linked to the node of id 0 and then to the node of id 1; its
  successors are then iterated with the node of id 1 first.
\<close>

lemma inheritance_less_self: "TypeLinkTag_less inheritanceTag inheritanceTag = False"
  by (simp add: TypeLinkTag_less_irrefl)

theorem neighbors_not_in_id_order:
  "(case invertedLinks of
      Inl e \<Rightarrow> False
    | Inr (G, r) \<Rightarrow>
        map_option Successors (Layouts G 16) = Some [(32, 64), (48, 64)]
        \<and> successorIds G 16 = [(1, 64), (0, 64)]
        \<and> \<not> sorted_wrt Link_less (successorIds G 16))"
  by (simp add: invertedLinks_def addInheritanceLink_def addLink_def threeNodes_def
      LayoutTypeSystemNode_ctor_def nullptr_def inheritance_less_self successorIds_def nodeID_def)

text \<open>
  C3, amended. The successor and predecessor sets of every node iterate in strictly
  ascending order of (neighbour address, tag address): a graph whose sets are so
  ordered keeps them so ordered through every link insertion.
\<close>

theorem neighbors_iterate_in_address_order:
  assumes "NeighborsSorted TS"
  shows "(addEqualityLink TS na nb A B = Inr (TSe, re) \<longrightarrow> NeighborsSorted TSe)
       \<and> (addInheritanceLink TS n A B = Inr (TSi, ri) \<longrightarrow> NeighborsSorted TSi)
       \<and> (addInstanceLink TS n A B O' = Inr (TSo, ro) \<longrightarrow> NeighborsSorted TSo)"
  using assms addEqualityLink_sorted addLink_sorted
  unfolding addInheritanceLink_def addInstanceLink_def by blast

lemma threeNodes_sorted: "NeighborsSorted threeNodes"
  by (simp add: NeighborsSorted_def threeNodes_def LayoutTypeSystemNode_ctor_def)

theorem neighbors_iterate_in_address_order_witness:
  "(case invertedLinks of
      Inl e \<Rightarrow> False
    | Inr (G, r) \<Rightarrow>
        NeighborsSorted G
        \<and> map_option Successors (Layouts G 16) = Some [(32, 64), (48, 64)]
        \<and> map_option Predecessors (Layouts G 32) = Some [(16, 64)])"
proof -
  obtain G1 where g1: "addInheritanceLink threeNodes 64 16 48 = Inr (G1, (64, True))"
    by (simp add: addInheritanceLink_def addLink_def threeNodes_def
      LayoutTypeSystemNode_ctor_def nullptr_def)
  obtain G2 where g2: "addInheritanceLink G1 80 16 32 = Inr (G2, (64, True))"
    and s: "map_option Successors (Layouts G2 16) = Some [(32, 64), (48, 64)]"
           "map_option Predecessors (Layouts G2 32) = Some [(16, 64)]"
    using g1 by (auto simp add: addInheritanceLink_def addLink_def threeNodes_def
      LayoutTypeSystemNode_ctor_def nullptr_def inheritance_less_self)
  from neighbors_iterate_in_address_order [OF threeNodes_sorted, where n = 64 and A = 16 and B = 48 and TSi = G1 and ri = "(64, True)"] g1
  have "NeighborsSorted G1" by simp
  from neighbors_iterate_in_address_order [OF this, where n = 80 and A = 16 and B = 32 and TSi = G2 and ri = "(64, True)"] g2
  have "NeighborsSorted G2" by simp
  with g1 g2 s show ?thesis by (simp add: invertedLinks_def)
qed

subsection \<open>The invariant of the graph\<close>

lemma Consistent_sorted: "Consistent TS \<Longrightarrow> NeighborsSorted TS"
  unfolding Consistent_def by blast

lemma Consistent_mirror: "Consistent TS \<Longrightarrow> ((Y, T) \<in> succs TS X) = ((X, T) \<in> preds TS Y)"
  unfolding Consistent_def by blast

lemma Consistent_interned:
  "Consistent TS \<Longrightarrow> (Y, T) \<in> succs TS X \<Longrightarrow> T \<in> snd ` set (LinkTags TS)"
  unfolding Consistent_def by blast

lemma Consistent_eqsym:
  "Consistent TS \<Longrightarrow> (G, T) \<in> set (LinkTags TS) \<Longrightarrow> Kind G = LK_Equality \<Longrightarrow>
     ((Y, T) \<in> succs TS X) = ((X, T) \<in> succs TS Y)"
  unfolding Consistent_def by blast

lemma Consistent_unique:
  "Consistent TS \<Longrightarrow> (G, T) \<in> set (LinkTags TS) \<Longrightarrow> (G', T) \<in> set (LinkTags TS) \<Longrightarrow> G = G'"
  unfolding Consistent_def by blast

text \<open>
  The invariant holds of a graph with no link and no tag, and every link insertion
  keeps it, given that the allocator offers an address no interned tag lives at.
\<close>

lemma Consistent_no_links:
  assumes "LinkTags TS = []"
    and "\<And>A N. Layouts TS A = Some N \<Longrightarrow> Successors N = [] \<and> Predecessors N = []"
  shows "Consistent TS"
proof -
  have "succs TS A = {}" "preds TS A = {}" for A
    using assms(2) [of A] by (auto simp: succs_def preds_def split: option.splits)
  then show ?thesis
    using assms by (auto simp: Consistent_def NeighborsSorted_def)
qed

lemma twoNodes_Consistent: "Consistent twoNodes"
  by (rule Consistent_no_links)
     (auto simp: twoNodes_def LayoutTypeSystemNode_ctor_def split: if_splits)

lemma addEqualityLink_effect:
  assumes "Consistent TS" "A \<noteq> nullptr" "B \<noteq> nullptr" "A \<noteq> B"
    and "A \<in> dom (Layouts TS)" "B \<in> dom (Layouts TS)"
    and "n1 \<notin> snd ` set (LinkTags TS)"
    and t: "std_set_insert LinkTags_less (equalityTag, n1) (LinkTags TS) = (Tags', It, b)"
  shows "\<exists>TSf TS1.
           addLink TS n1 A B equalityTag = Inr (TSf, (snd It, (B, snd It) \<notin> succs TS A))
         \<and> addLink TSf n2 B A equalityTag = Inr (TS1, (snd It, (B, snd It) \<notin> succs TS A))
         \<and> addEqualityLink TS n1 n2 A B = Inr (TS1, (snd It, (B, snd It) \<notin> succs TS A))
         \<and> succs TS1 = (succs TS)(A := insert (B, snd It) (succs TS A),
                                    B := insert (A, snd It) (succs TS B))
         \<and> preds TS1 = (preds TS)(B := insert (A, snd It) (preds TS B),
                                    A := insert (B, snd It) (preds TS A))
         \<and> LinkTags TS1 = Tags' \<and> NeighborsSorted TS1
         \<and> dom (Layouts TS1) = dom (Layouts TS)
         \<and> addEqualityLink TS1 n3 n4 B A = Inr (TS1, (snd It, False))"
proof -
  from assms(5,6) obtain NA NB where
    l: "Layouts TS A = Some NA" "Layouts TS B = Some NB" by auto
  note sorted = Consistent_sorted [OF assms(1)]
    and mirror = Consistent_mirror [OF assms(1)]
    and interned = Consistent_interned [OF assms(1)]
    and eqsym = Consistent_eqsym [OF assms(1)]
    and unique = Consistent_unique [OF assms(1)]
  define T where "T = snd It"
  from addLink_effect [OF sorted assms(2-4) l t] obtain TSf where
    f: "addLink TS n1 A B equalityTag =
          Inr (TSf, (T, (B, T) \<notin> succs TS A \<or> (A, T) \<notin> preds TS B))"
    and fs: "succs TSf = (succs TS)(A := insert (B, T) (succs TS A))"
    and fp: "preds TSf = (preds TS)(B := insert (A, T) (preds TS B))"
    and ft: "LinkTags TSf = Tags'" and fsorted: "NeighborsSorted TSf"
    and fdom: "dom (Layouts TSf) = dom (Layouts TS)"
    unfolding T_def by blast
  from fdom l obtain NB' NA' where
    l': "Layouts TSf B = Some NB'" "Layouts TSf A = Some NA'" by (metis domD domI)
  have t': "std_set_insert LinkTags_less (equalityTag, n2) (LinkTags TSf) = (Tags', It, False)"
    using LinkTags_insert_again [OF t] ft by simp
  from addLink_effect [OF fsorted assms(3,2) assms(4) [symmetric] l' t'] obtain TS1 where
    g: "addLink TSf n2 B A equalityTag =
          Inr (TS1, (T, (A, T) \<notin> succs TSf B \<or> (B, T) \<notin> preds TSf A))"
    and gs: "succs TS1 = (succs TSf)(B := insert (A, T) (succs TSf B))"
    and gp: "preds TS1 = (preds TSf)(A := insert (B, T) (preds TSf A))"
    and gt: "LinkTags TS1 = Tags'" and gsorted: "NeighborsSorted TS1"
    and gdom: "dom (Layouts TS1) = dom (Layouts TSf)"
    unfolding T_def by blast
  have sym: "((B, T) \<in> succs TS A) = ((A, T) \<in> succs TS B)"
  proof (cases b)
    case False
    with LinkTags_insert_cases [OF t] have "It \<in> set (LinkTags TS)" "fst It = equalityTag"
      by auto
    then have "(equalityTag, T) \<in> set (LinkTags TS)"
      unfolding T_def by (metis prod.collapse)
    then show ?thesis by (rule eqsym) (simp add: equalityTag_def)
  next
    case True
    with LinkTags_insert_cases [OF t] have "T = n1" by (auto simp: T_def)
    with interned assms(7) have "(B, T) \<notin> succs TS A" "(A, T) \<notin> succs TS B" by auto
    then show ?thesis by simp
  qed
  have new_f: "((B, T) \<notin> succs TS A \<or> (A, T) \<notin> preds TS B) = ((B, T) \<notin> succs TS A)"
    using mirror [of B T A] by simp
  have new_b: "((A, T) \<notin> succs TSf B \<or> (B, T) \<notin> preds TSf A) = ((B, T) \<notin> succs TS A)"
    using assms(4) sym mirror [of A T B] by (simp add: fs fp)
  have both: "addEqualityLink TS n1 n2 A B = Inr (TS1, (T, (B, T) \<notin> succs TS A))"
    using f g new_f new_b by (simp add: addEqualityLink_def)
  have su: "succs TS1 = (succs TS)(A := insert (B, T) (succs TS A),
                                  B := insert (A, T) (succs TS B))"
    using assms(4) by (simp add: gs fs)
  have pr: "preds TS1 = (preds TS)(B := insert (A, T) (preds TS B),
                                  A := insert (B, T) (preds TS A))"
    using assms(4) by (simp add: gp fp)
  have edges: "(B, T) \<in> succs TS1 A" "(A, T) \<in> preds TS1 B"
      "(A, T) \<in> succs TS1 B" "(B, T) \<in> preds TS1 A"
    using assms(4) by (simp_all add: su pr)
  have again1: "addLink TS1 n3 B A equalityTag = Inr (TS1, (T, False))"
    using g by (rule addLink_again)
  have t1: "std_set_insert LinkTags_less (equalityTag, n4) (LinkTags TS1)
              = (LinkTags TS1, It, False)"
    using LinkTags_insert_again [OF t] gt by simp
  have again2: "addLink TS1 n4 A B equalityTag = Inr (TS1, (T, False))"
    using addLink_present [OF gsorted assms(2-4) _ _ t1] edges assms(5,6) gdom fdom
    by (simp add: T_def)
  have second: "addEqualityLink TS1 n3 n4 B A = Inr (TS1, (T, False))"
    using again1 again2 by (simp add: addEqualityLink_def)
  show ?thesis
    using f g new_f new_b both su pr gt gsorted gdom fdom second
    unfolding T_def by (intro exI [of _ TSf] exI [of _ TS1]) simp
qed

lemma addLink_Consistent:
  assumes "Consistent TS" "Kind Tag \<noteq> LK_Equality" "n \<notin> snd ` set (LinkTags TS)"
    and "addLink TS n Src Tgt Tag = Inr (TS1, r)"
  shows "Consistent TS1"
proof -
  obtain T New where r: "r = (T, New)" by (cases r)
  from assms(4) [unfolded r] show ?thesis
  proof (cases rule: addLink_cases)
    case dropped
    with assms(1) show ?thesis by simp
  next
    case (linked SrcNode TgtNode Tags' It b Succ' i1 New1 Pred' i2 New2)
    note sorted = Consistent_sorted [OF assms(1)]
    and mirror = Consistent_mirror [OF assms(1)]
    and interned = Consistent_interned [OF assms(1)]
    and eqsym = Consistent_eqsym [OF assms(1)]
    and unique = Consistent_unique [OF assms(1)]
    from addLink_effect [OF sorted linked(1-6)] assms(4) r linked(9) have
      su: "succs TS1 = (succs TS)(Src := insert (Tgt, T) (succs TS Src))"
      and pr: "preds TS1 = (preds TS)(Tgt := insert (Src, T) (preds TS Tgt))"
      and tg: "LinkTags TS1 = Tags'" and so: "NeighborsSorted TS1"
      by auto
    note c = LinkTags_insert_cases [OF linked(6)]
    have sub: "set (LinkTags TS) \<subseteq> set Tags'" using c by auto
    have it: "It \<in> set Tags'" "fst It = Tag" using c by auto
    then have tagT: "(Tag, T) \<in> set Tags'" using linked(9) by (metis prod.collapse)
    have "\<forall>G G' T. (G, T) \<in> set (LinkTags TS) \<longrightarrow> (G', T) \<in> set (LinkTags TS) \<longrightarrow> G = G'"
      using unique by blast
    then have uniq': "\<forall>G G' T. (G, T) \<in> set Tags' \<longrightarrow> (G', T) \<in> set Tags' \<longrightarrow> G = G'"
      by (rule LinkTags_insert_unique [OF linked(6) assms(3)])
    have m: "((Y, U) \<in> succs TS1 X) = ((X, U) \<in> preds TS1 Y)" for X Y U
      using mirror [of Y U X] by (auto simp: su pr)
    have i: "U \<in> snd ` set (LinkTags TS1)" if "(Y, U) \<in> succs TS1 X" for X Y U
    proof (cases "(Y, U) \<in> succs TS X")
      case True
      then have "U \<in> snd ` set (LinkTags TS)" by (rule interned)
      with sub tg show ?thesis by auto
    next
      case False
      with that have "U = T" by (auto simp: su split: if_splits)
      with tagT tg show ?thesis by force
    qed
    have e: "((Y, U) \<in> succs TS1 X) = ((X, U) \<in> succs TS1 Y)"
      if "(G, U) \<in> set (LinkTags TS1)" "Kind G = LK_Equality" for G U X Y
    proof -
      from that(1) tg have gu: "(G, U) \<in> set Tags'" by simp
      have "U \<noteq> T"
      proof
        assume "U = T"
        with gu tagT uniq' have "G = Tag" by blast
        with that(2) assms(2) show False by simp
      qed
      moreover have "(G, U) \<in> set (LinkTags TS)"
        using c gu that(2) assms(2) by auto
      ultimately show ?thesis using eqsym [OF _ that(2), of U Y X] by (auto simp: su)
    qed
    show ?thesis
      unfolding Consistent_def using so m i e uniq' tg by blast
  qed
qed

lemma addEqualityLink_Consistent:
  assumes "Consistent TS" "n1 \<notin> snd ` set (LinkTags TS)"
    and "addEqualityLink TS n1 n2 A B = Inr (TS1, r)"
  shows "Consistent TS1"
proof (cases "A = nullptr \<or> B = nullptr \<or> A = B")
  case True
  then have "B = nullptr \<or> A = nullptr \<or> B = A" by auto
  with True assms(3) have "TS1 = TS"
    by (simp add: addEqualityLink_def addLink_drops)
  with assms(1) show ?thesis by simp
next
  case False
  then have nn: "A \<noteq> nullptr" "B \<noteq> nullptr" "A \<noteq> B" by auto
  from assms(3) nn have d: "A \<in> dom (Layouts TS)" "B \<in> dom (Layouts TS)"
    by (auto simp: addEqualityLink_def addLink_def bind_def split: option.splits)
  obtain Tags' It b where
    t: "std_set_insert LinkTags_less (equalityTag, n1) (LinkTags TS) = (Tags', It, b)"
    by (cases "std_set_insert LinkTags_less (equalityTag, n1) (LinkTags TS)") auto
  define T where "T = snd It"
  from addEqualityLink_effect [OF assms(1) nn d assms(2) t, of n2] assms(3) have
    su: "succs TS1 = (succs TS)(A := insert (B, T) (succs TS A),
                                    B := insert (A, T) (succs TS B))"
    and pr: "preds TS1 = (preds TS)(B := insert (A, T) (preds TS B),
                                    A := insert (B, T) (preds TS A))"
    and tg: "LinkTags TS1 = Tags'" and so: "NeighborsSorted TS1"
    unfolding T_def by auto
  note sorted = Consistent_sorted [OF assms(1)]
    and mirror = Consistent_mirror [OF assms(1)]
    and interned = Consistent_interned [OF assms(1)]
    and eqsym = Consistent_eqsym [OF assms(1)]
    and unique = Consistent_unique [OF assms(1)]
  note c = LinkTags_insert_cases [OF t]
  have sub: "set (LinkTags TS) \<subseteq> set Tags'" using c by auto
  have it: "It \<in> set Tags'" "fst It = equalityTag" using c by auto
  then have tagT: "(equalityTag, T) \<in> set Tags'" unfolding T_def by (metis prod.collapse)
  have "\<forall>G G' T. (G, T) \<in> set (LinkTags TS) \<longrightarrow> (G', T) \<in> set (LinkTags TS) \<longrightarrow> G = G'"
    using unique by blast
  then have uniq': "\<forall>G G' T. (G, T) \<in> set Tags' \<longrightarrow> (G', T) \<in> set Tags' \<longrightarrow> G = G'"
    by (rule LinkTags_insert_unique [OF t assms(2)])
  have m: "((Y, U) \<in> succs TS1 X) = ((X, U) \<in> preds TS1 Y)" for X Y U
    using mirror [of Y U X] nn(3) by (auto simp: su pr)
  have i: "U \<in> snd ` set (LinkTags TS1)" if "(Y, U) \<in> succs TS1 X" for X Y U
  proof (cases "(Y, U) \<in> succs TS X")
    case True
    then have "U \<in> snd ` set (LinkTags TS)" by (rule interned)
    with sub tg show ?thesis by auto
  next
    case False
    with that have "U = T" by (auto simp: su split: if_splits)
    with tagT tg show ?thesis by force
  qed
  have e: "((Y, U) \<in> succs TS1 X) = ((X, U) \<in> succs TS1 Y)"
    if "(G, U) \<in> set (LinkTags TS1)" "Kind G = LK_Equality" for G U X Y
  proof (cases "(G, U) \<in> set (LinkTags TS)")
    case True
    from eqsym [OF True that(2), of Y X] nn(3) show ?thesis by (auto simp: su)
  next
    case False
    with that(1) tg c have u: "U = n1" "b" by auto
    with c have "T = n1" by (auto simp: T_def)
    moreover have "(Y, n1) \<notin> succs TS X" "(X, n1) \<notin> succs TS Y"
      using interned assms(2) by blast+
    ultimately show ?thesis using u nn(3) by (auto simp: su)
  qed
  show ?thesis
    unfolding Consistent_def using so m i e uniq' tg by blast
qed

text \<open>
  X1. Every link insertion that returns keeps the invariant of the graph, given that
  the allocator offers an address no interned tag lives at.
\<close>

theorem link_insertions_keep_consistent:
  assumes "Consistent TS" "n \<notin> snd ` set (LinkTags TS)"
  shows "(addEqualityLink TS n nb A B = Inr (TSe, re) \<longrightarrow> Consistent TSe)
       \<and> (addInheritanceLink TS n A B = Inr (TSi, ri) \<longrightarrow> Consistent TSi)
       \<and> (addInstanceLink TS n A B O' = Inr (TSo, ro) \<longrightarrow> Consistent TSo)"
proof -
  have "Kind inheritanceTag \<noteq> LK_Equality" "Kind (instanceTag O') \<noteq> LK_Equality"
    by (simp_all add: inheritanceTag_def instanceTag_def)
  with assms addLink_Consistent addEqualityLink_Consistent show ?thesis
    unfolding addInheritanceLink_def addInstanceLink_def by blast
qed

theorem link_insertions_keep_consistent_witness:
  "(case addInheritanceLink twoNodes 64 16 32 of
      Inl e \<Rightarrow> False
    | Inr (G, r) \<Rightarrow> Consistent G \<and> r = (64, True))"
proof -
  obtain G where g: "addInheritanceLink twoNodes 64 16 32 = Inr (G, (64, True))"
    by (simp add: addInheritanceLink_def addLink_def twoNodes_def
      LayoutTypeSystemNode_ctor_def nullptr_def)
  have "64 \<notin> snd ` set (LinkTags twoNodes)" by (simp add: twoNodes_def)
  from link_insertions_keep_consistent [OF twoNodes_Consistent this,
      where A = 16 and B = 32 and TSi = G and ri = "(64, True)"] g
  have "Consistent G" by simp
  with g show ?thesis by simp
qed

subsection \<open>Equality links\<close>

text \<open>
  C5. In a consistent graph, let \<open>A\<close> and \<open>B\<close> be two distinct nodes. Then
  \<^verbatim>\<open>addEqualityLink(A, B)\<close> does not fail: its forward and its backward insertion return
  the same tag handle and the same flag, and afterwards the link is there in both
  directions, among the successors and the predecessors of both nodes. A following
  \<^verbatim>\<open>addEqualityLink(B, A)\<close> returns the same handle with \<open>False\<close> and leaves the whole
  graph, and so every successor and predecessor set, as the first call left it.
\<close>

theorem add_equality_symmetric_idempotent:
  assumes "Consistent TS" "A \<noteq> nullptr" "B \<noteq> nullptr" "A \<noteq> B"
    and "A \<in> dom (Layouts TS)" "B \<in> dom (Layouts TS)"
    and "n1 \<notin> snd ` set (LinkTags TS)"
  shows "\<exists>TSf TS1 T New.
           addLink TS n1 A B equalityTag = Inr (TSf, (T, New))
         \<and> addLink TSf n2 B A equalityTag = Inr (TS1, (T, New))
         \<and> addEqualityLink TS n1 n2 A B = Inr (TS1, (T, New))
         \<and> (B, T) \<in> succs TS1 A \<and> (A, T) \<in> preds TS1 B
         \<and> (A, T) \<in> succs TS1 B \<and> (B, T) \<in> preds TS1 A
         \<and> addEqualityLink TS1 n3 n4 B A = Inr (TS1, (T, False))"
proof -
  obtain Tags' It b where
    t: "std_set_insert LinkTags_less (equalityTag, n1) (LinkTags TS) = (Tags', It, b)"
    by (cases "std_set_insert LinkTags_less (equalityTag, n1) (LinkTags TS)") auto
  from addEqualityLink_effect [OF assms t, of n2 n3 n4] obtain TSf TS1 where
    r: "addLink TS n1 A B equalityTag = Inr (TSf, (snd It, (B, snd It) \<notin> succs TS A))"
       "addLink TSf n2 B A equalityTag = Inr (TS1, (snd It, (B, snd It) \<notin> succs TS A))"
       "addEqualityLink TS n1 n2 A B = Inr (TS1, (snd It, (B, snd It) \<notin> succs TS A))"
       "addEqualityLink TS1 n3 n4 B A = Inr (TS1, (snd It, False))"
    and su: "succs TS1 = (succs TS)(A := insert (B, snd It) (succs TS A),
                                    B := insert (A, snd It) (succs TS B))"
    and pr: "preds TS1 = (preds TS)(B := insert (A, snd It) (preds TS B),
                                    A := insert (B, snd It) (preds TS A))"
    by blast
  have "(B, snd It) \<in> succs TS1 A" "(A, snd It) \<in> preds TS1 B"
      "(A, snd It) \<in> succs TS1 B" "(B, snd It) \<in> preds TS1 A"
    using assms(4) by (simp_all add: su pr)
  with r show ?thesis by blast
qed

theorem add_equality_symmetric_idempotent_witness:
  "\<exists>TSf TS1 T New.
           addLink twoNodes 64 16 32 equalityTag = Inr (TSf, (T, New))
         \<and> addLink TSf 80 32 16 equalityTag = Inr (TS1, (T, New))
         \<and> addEqualityLink twoNodes 64 80 16 32 = Inr (TS1, (T, New))
         \<and> (32, T) \<in> succs TS1 16 \<and> (16, T) \<in> preds TS1 32
         \<and> (16, T) \<in> succs TS1 32 \<and> (32, T) \<in> preds TS1 16
         \<and> addEqualityLink TS1 96 112 32 16 = Inr (TS1, (T, False))"
  using add_equality_symmetric_idempotent [OF twoNodes_Consistent, of 16 32 64 80 96 112]
  by (simp add: nullptr_def twoNodes_def)

subsection \<open>Keys\<close>

text \<open>
  C8, as stated, fails in its last part: a constructed key is not immutable. The
  defaulted assignment overwrites it. The key of a function that returns an integer
  becomes, by assignment, the key of field 1 of a function that returns a struct.
\<close>

theorem key_is_overwritten_by_assignment:
  "LayoutTypePtr_ctor (Some intFn) UINT_MAX = Inr \<lparr>V = intFn, FieldIdx = UINT_MAX\<rparr>
   \<and> LayoutTypePtr_ctor (Some structFn) 1 = Inr \<lparr>V = structFn, FieldIdx = 1\<rparr>
   \<and> LayoutTypePtr_assign \<lparr>V = intFn, FieldIdx = UINT_MAX\<rparr> \<lparr>V = structFn, FieldIdx = 1\<rparr>
       \<noteq> \<lparr>V = intFn, FieldIdx = UINT_MAX\<rparr>"
  by (simp add: LayoutTypePtr_ctor_def LayoutTypePtr_assign_def Let_def structFn_def intFn_def
      UINT_MAX_def)

text \<open>
  C8, amended. The constructor of a Layout-Type Key returns a key exactly when its
  arguments satisfy the key invariant: the value is not null, is a function or has
  integer or pointer type, and the field index is present exactly for a function that
  returns a struct, and is then below the struct's number of elements. Every other
  call is an assertion failure. The key that is returned holds the two arguments as
  they were given. An assignment to a key makes it equal to the key assigned, so a
  key changes only as a whole, and satisfies the invariant afterwards if the key
  assigned does.
\<close>

theorem LayoutTypePtr_ctor_checks_invariant:
  "LayoutTypePtr_ctor Val Idx =
     (case Val of
        None \<Rightarrow> Inl AssertionFailure
      | Some W \<Rightarrow>
          if KeyInvariant (Some W) Idx then Inr \<lparr>V = W, FieldIdx = Idx\<rparr>
          else Inl AssertionFailure)
   \<and> LayoutTypePtr_assign This Other = Other
   \<and> (KeyInvariant (Some (V Other)) (FieldIdx Other) \<longrightarrow>
        KeyInvariant (Some (V (LayoutTypePtr_assign This Other)))
          (FieldIdx (LayoutTypePtr_assign This Other)))"
proof -
  have "LayoutTypePtr_ctor Val Idx =
     (case Val of
        None \<Rightarrow> Inl AssertionFailure
      | Some W \<Rightarrow>
          if KeyInvariant (Some W) Idx then Inr \<lparr>V = W, FieldIdx = Idx\<rparr>
          else Inl AssertionFailure)"
    by (cases Val; cases "returnedStruct (the Val)")
       (auto simp: LayoutTypePtr_ctor_def KeyInvariant_def Let_def)
  moreover have "LayoutTypePtr_assign This Other = Other"
    by (simp add: LayoutTypePtr_assign_def)
  ultimately show ?thesis by simp
qed

theorem LayoutTypePtr_ctor_checks_invariant_witness:
  "LayoutTypePtr_ctor (Some structFn) 1 = Inr \<lparr>V = structFn, FieldIdx = 1\<rparr>
   \<and> LayoutTypePtr_ctor (Some structFn) 2 = Inl AssertionFailure
   \<and> LayoutTypePtr_ctor (Some structFn) UINT_MAX = Inl AssertionFailure
   \<and> LayoutTypePtr_ctor (Some intFn) UINT_MAX = Inr \<lparr>V = intFn, FieldIdx = UINT_MAX\<rparr>
   \<and> LayoutTypePtr_ctor (Some intFn) 0 = Inl AssertionFailure
   \<and> LayoutTypePtr_ctor (Some (UndefValue FloatTy)) UINT_MAX = Inl AssertionFailure
   \<and> LayoutTypePtr_ctor None UINT_MAX = Inl AssertionFailure
   \<and> LayoutTypePtr_assign \<lparr>V = intFn, FieldIdx = UINT_MAX\<rparr> \<lparr>V = structFn, FieldIdx = 1\<rparr>
       = \<lparr>V = structFn, FieldIdx = 1\<rparr>
   \<and> KeyInvariant (Some structFn) 1
   \<and> KeyInvariant (Some (V (LayoutTypePtr_assign \<lparr>V = intFn, FieldIdx = UINT_MAX\<rparr>
                                \<lparr>V = structFn, FieldIdx = 1\<rparr>)))
       (FieldIdx (LayoutTypePtr_assign \<lparr>V = intFn, FieldIdx = UINT_MAX\<rparr>
                    \<lparr>V = structFn, FieldIdx = 1\<rparr>))"
proof -
  have k: "KeyInvariant (Some structFn) 1"
    by (simp add: KeyInvariant_def structFn_def UINT_MAX_def)
  from LayoutTypePtr_ctor_checks_invariant [of "Some structFn" 1
      "\<lparr>V = intFn, FieldIdx = UINT_MAX\<rparr>" "\<lparr>V = structFn, FieldIdx = 1\<rparr>"] k
  have a: "LayoutTypePtr_assign \<lparr>V = intFn, FieldIdx = UINT_MAX\<rparr> \<lparr>V = structFn, FieldIdx = 1\<rparr>
             = \<lparr>V = structFn, FieldIdx = 1\<rparr>"
    "KeyInvariant (Some (V (LayoutTypePtr_assign \<lparr>V = intFn, FieldIdx = UINT_MAX\<rparr>
                                \<lparr>V = structFn, FieldIdx = 1\<rparr>)))
       (FieldIdx (LayoutTypePtr_assign \<lparr>V = intFn, FieldIdx = UINT_MAX\<rparr>
                    \<lparr>V = structFn, FieldIdx = 1\<rparr>))"
    by simp_all
  have c: "LayoutTypePtr_ctor (Some structFn) 1 = Inr \<lparr>V = structFn, FieldIdx = 1\<rparr>
   \<and> LayoutTypePtr_ctor (Some structFn) 2 = Inl AssertionFailure
   \<and> LayoutTypePtr_ctor (Some structFn) UINT_MAX = Inl AssertionFailure
   \<and> LayoutTypePtr_ctor (Some intFn) UINT_MAX = Inr \<lparr>V = intFn, FieldIdx = UINT_MAX\<rparr>
   \<and> LayoutTypePtr_ctor (Some intFn) 0 = Inl AssertionFailure
   \<and> LayoutTypePtr_ctor (Some (UndefValue FloatTy)) UINT_MAX = Inl AssertionFailure
   \<and> LayoutTypePtr_ctor None UINT_MAX = Inl AssertionFailure"
    using LayoutTypePtr_ctor_checks_invariant [of "Some structFn" 1]
      LayoutTypePtr_ctor_checks_invariant [of "Some structFn" 2]
      LayoutTypePtr_ctor_checks_invariant [of "Some structFn" UINT_MAX]
      LayoutTypePtr_ctor_checks_invariant [of "Some intFn" UINT_MAX]
      LayoutTypePtr_ctor_checks_invariant [of "Some intFn" 0]
      LayoutTypePtr_ctor_checks_invariant [of "Some (UndefValue FloatTy)" UINT_MAX]
      LayoutTypePtr_ctor_checks_invariant [of None UINT_MAX]
    by (simp add: KeyInvariant_def structFn_def intFn_def UINT_MAX_def)
  from c a k show ?thesis by blast
qed

section \<open>Properties of the AST builder\<close>

lemmas example_defs = builder_def x86_64_def fn_def fnDecl_def argX_def argY_def refX_def refY_def
  getOperand_def toRValue_def parenthesize_def getCastedBinaryOperands_def is128Int_def
  getIntTypeForBitwidth_def getIntTypeByWidth_def isSigned_def Let_def
  getParenthesizedExprForValue.simps getExprForValue.simps getLiteralFromConstant.simps
  createCast.simps createRValueExprForBinaryOperator.simps

subsection \<open>The operator of a multiplication\<close>

text \<open>
  C1 fails on the code. For \<^verbatim>\<open>Instruction::Mul\<close> the operator table yields \<open>BO_And\<close>,
  the operator \<^verbatim>\<open>&\<close>: for \<^verbatim>\<open>%m = mul i32 %x, %y\<close> the builder emits \<^verbatim>\<open>x & y\<close>.
\<close>

theorem mul_emits_bitwise_and:
  "getClangBinaryOpKind Mul = Inr BO_And
   \<and> createRValueExprForBinaryOperator (builder True)
        (Instruction 0 Mul (IntegerTy 32) [argX, argY])
       = Inr (BinaryOperator refX refY BO_And (Builtin BT_UInt))"
  by (simp add: example_defs)

text \<open>
  X4. Scenarios 2 and 3 of the specification on \<^verbatim>\<open>i32 f(i32 x, i32 y)\<close>: an \<^verbatim>\<open>add\<close>
  is \<^verbatim>\<open>x + y\<close> with no cast at all, and an \<^verbatim>\<open>sdiv\<close> is
  \<^verbatim>\<open>(unsigned)((int)x / (int)y)\<close>.
\<close>

theorem add_and_sdiv_scenarios:
  "createRValueExprForBinaryOperator (builder True)
      (Instruction 0 Add (IntegerTy 32) [argX, argY])
     = Inr (BinaryOperator refX refY BO_Add (Builtin BT_UInt))
   \<and> createRValueExprForBinaryOperator (builder True)
      (Instruction 0 SDiv (IntegerTy 32) [argX, argY])
     = Inr (CStyleCastExpr (Builtin BT_UInt) CK_IntegralCast
              (ParenExpr (BinaryOperator
                 (CStyleCastExpr (Builtin BT_Int) CK_IntegralCast refX)
                 (CStyleCastExpr (Builtin BT_Int) CK_IntegralCast refY)
                 BO_Div (Builtin BT_Int))))"
  by (simp add: example_defs)

subsection \<open>Casts\<close>

lemma getExprType_toRValue [simp]: "getExprType (toRValue E) = getExprType E"
  by (simp add: toRValue_def)

lemma createCast_integral:
  "isIntegerType (getTypePtr T) \<Longrightarrow> isIntegerType (getTypePtr (getExprType E)) \<Longrightarrow>
     createCast Ctx T E = Inr (CStyleCastExpr T CK_IntegralCast E)"
  by (subst createCast.simps) (auto simp: Let_def)

lemma createCast_is_cast:
  "createCast Ctx T E = Inr R \<Longrightarrow> \<exists>ck E'. R = CStyleCastExpr T ck E'"
  by (subst (asm) createCast.simps)
     (auto simp: Let_def bind_def split: if_splits sum.splits)

lemma getUIntPtrType_integer:
  "UIntPtrType Ctx \<noteq> NoInt \<Longrightarrow> isIntegerType (getTypePtr (getUIntPtrType Ctx))"
  by (cases "UIntPtrType Ctx") (auto simp: getUIntPtrType_def)

lemma createCast_to_uintptr:
  assumes "isIntegerType (getTypePtr (getExprType RHS))"
  shows "createCast Ctx (getUIntPtrType Ctx) RHS =
           (if UIntPtrType Ctx = NoInt then Inl NullDereference
            else Inr (CStyleCastExpr (getUIntPtrType Ctx) CK_IntegralCast RHS))"
proof (cases "UIntPtrType Ctx = NoInt")
  case True
  then show ?thesis by (subst createCast.simps) (simp add: getUIntPtrType_def)
next
  case False
  with createCast_integral [OF getUIntPtrType_integer [OF False] assms] show ?thesis by simp
qed

lemma isIntegerType_not_Null: "isIntegerType T \<Longrightarrow> T \<noteq> NullTy"
  by auto

lemma isPointerType_not_Null: "isPointerType T \<Longrightarrow> T \<noteq> NullTy"
  by auto

lemma isPointerType_not_integer: "isPointerType T \<Longrightarrow> \<not> isIntegerType T"
  by (cases T) auto

lemma getTypeSize_getTypePtr [simp]: "getTypeSize Ctx (getTypePtr T) = getTypeSize Ctx T"
  by (induction T) auto

text \<open>
  C9. \<^verbatim>\<open>createCast\<close> from an integer-typed expression to a pointer type: an integer
  wider than the pointer is an assertion failure; an integer of the pointer's width is
  cast to the pointer type directly; a narrower integer is first cast to \<^verbatim>\<open>uintptr_t\<close>
  by an integral cast, and that cast is then cast to the pointer type. (On a target
  with no \<^verbatim>\<open>uintptr_t\<close> the inner cast dereferences a null type.)
\<close>

theorem createCast_integer_to_pointer:
  assumes "isPointerType (getTypePtr LHSQualTy)"
    and "isIntegerType (getTypePtr (getExprType RHS))"
    and "PtrSize = getTypeSize Ctx LHSQualTy"
    and "IntegerSize = getTypeSize Ctx (getExprType RHS)"
  shows "createCast Ctx LHSQualTy RHS =
           (if PtrSize < IntegerSize then Inl AssertionFailure
            else if IntegerSize < PtrSize then
              (if UIntPtrType Ctx = NoInt then Inl NullDereference
               else Inr (CStyleCastExpr LHSQualTy CK_IntegralToPointer
                           (CStyleCastExpr (getUIntPtrType Ctx) CK_IntegralCast RHS)))
            else Inr (CStyleCastExpr LHSQualTy CK_IntegralToPointer RHS))"
  using assms isIntegerType_not_Null [OF assms(2)] isPointerType_not_Null [OF assms(1)]
    isPointerType_not_integer [OF assms(1)] createCast_to_uintptr [OF assms(2), of Ctx]
  by (subst createCast.simps) (auto simp: Let_def)

theorem createCast_integer_to_pointer_witness:
  "createCast x86_64 (Pointer (Builtin BT_UChar)) refX
     = Inr (CStyleCastExpr (Pointer (Builtin BT_UChar)) CK_IntegralToPointer
              (CStyleCastExpr (Builtin BT_ULong) CK_IntegralCast refX))
   \<and> createCast x86_64 (Pointer (Builtin BT_UChar)) (IntegerLiteral 64 4096 (Builtin BT_ULong))
     = Inr (CStyleCastExpr (Pointer (Builtin BT_UChar)) CK_IntegralToPointer
              (IntegerLiteral 64 4096 (Builtin BT_ULong)))
   \<and> createCast x86_64 (Pointer (Builtin BT_UChar)) (IntegerLiteral 64 1 (Builtin BT_UInt128))
     = Inl AssertionFailure"
  using createCast_integer_to_pointer [of "Pointer (Builtin BT_UChar)" refX _ x86_64, OF _ _ refl refl]
    createCast_integer_to_pointer [of "Pointer (Builtin BT_UChar)"
      "IntegerLiteral 64 4096 (Builtin BT_ULong)" _ x86_64, OF _ _ refl refl]
    createCast_integer_to_pointer [of "Pointer (Builtin BT_UChar)"
      "IntegerLiteral 64 1 (Builtin BT_UInt128)" _ x86_64, OF _ _ refl refl]
  by (simp add: refX_def x86_64_def getUIntPtrType_def)

lemma isPointerTy_not_integerTy: "isPointerTy T \<Longrightarrow> \<not> isIntegerTy T"
  by (cases T) auto

text \<open>
  X3. The expression of an \<^verbatim>\<open>inttoptr\<close> instruction that has no statement yet is built
  as \<^verbatim>\<open>createCast\<close> builds it: a wider integer is an assertion failure, a narrower
  one goes through \<^verbatim>\<open>uintptr_t\<close>.
\<close>

theorem inttoptr_instruction_widens_first:
  assumes "isIntegerTy RHSTy" "isPointerTy LHSTy"
    and "DestTy = getQualTypeOfType B LHSTy" "isPointerType (getTypePtr DestTy)"
    and "isIntegerType (getTypePtr (getExprType Result0))"
    and "PtrSize = getTypeSize (ASTCtx B) DestTy"
    and "IntegerSize = getTypeSize (ASTCtx B) (getExprType Result0)"
  shows "castResult B IntToPtr RHSTy LHSTy Result0 =
           (if PtrSize < IntegerSize then Inl AssertionFailure
            else if IntegerSize < PtrSize then
              (if UIntPtrType (ASTCtx B) = NoInt then Inl NullDereference
               else Inr (CStyleCastExpr DestTy CK_IntegralToPointer
                           (CStyleCastExpr (getUIntPtrType (ASTCtx B)) CK_IntegralCast Result0)))
            else Inr (CStyleCastExpr DestTy CK_IntegralToPointer Result0))"
proof -
  from assms(1,2) have ne: "RHSTy \<noteq> LHSTy" "\<not> isPointerTy RHSTy"
    using isPointerTy_not_integerTy by auto
  show ?thesis
    using assms ne createCast_to_uintptr [OF assms(5), of "ASTCtx B"]
    by (auto simp: castResult_def isIntOrPtrTy_def Let_def)
qed

theorem inttoptr_instruction_widens_first_witness:
  "castResult (builder True) IntToPtr (IntegerTy 32) (PointerTy (IntegerTy 8)) refX
     = Inr (CStyleCastExpr (Pointer (Builtin BT_Char_S)) CK_IntegralToPointer
              (CStyleCastExpr (Builtin BT_ULong) CK_IntegralCast refX))"
  using inttoptr_instruction_widens_first [of "IntegerTy 32" "PointerTy (IntegerTy 8)" _
      "builder True" refX, OF _ _ refl _ _ refl refl]
  by (simp add: builder_def refX_def x86_64_def getUIntPtrType_def)

subsection \<open>Unsigned comparisons\<close>

lemma unsigned_operands_unchanged:
  assumes "\<not> isSigned p"
    and "isIntegerType (getTypePtr (getExprType LHS))"
    and "isIntegerType (getTypePtr (getExprType RHS))"
    and "getTypeSize Ctx (getTypePtr (getExprType LHS)) = getTypeSize Ctx (getTypePtr (getExprType RHS))"
  shows "getCastedBinaryOperands Ctx (ICmp p) LHS RHS = Inr (LHS, RHS)"
  using assms by (simp add: getCastedBinaryOperands_def Let_def)

text \<open>
  Whatever the translation of types, the expression built for an \<^verbatim>\<open>icmp\<close> is a C-style
  cast to the translated type of the instruction.
\<close>

lemma bind_eq_Inr: "bind m f = Inr y \<Longrightarrow> \<exists>x. m = Inr x \<and> f x = Inr y"
  by (cases m) (auto simp: bind_def)

lemma icmp_result_is_a_cast:
  assumes "createRValueExprForBinaryOperator B (Instruction n (ICmp p) T ops) = Inr R"
  shows "\<exists>ck E. R = CStyleCastExpr (getQualType B (Instruction n (ICmp p) T ops)) ck E"
proof -
  from assms have l: "length ops = 2"
    by (auto simp: createRValueExprForBinaryOperator.simps split: if_splits)
  with assms obtain Cmp LHS RHS where
    "createCast (ASTCtx B) (getQualType B (Instruction n (ICmp p) T ops))
       (ParenExpr (BinaryOperator LHS RHS Cmp (getExprType LHS))) = Inr R"
    by (auto simp: createRValueExprForBinaryOperator.simps Let_def dest!: bind_eq_Inr)
  then show ?thesis by (rule createCast_is_cast)
qed

text \<open>
  C2, as stated, fails: the comparison does get an outer cast. For
  \<^verbatim>\<open>%c = icmp ult i32 %x, %y\<close> the builder returns \<^verbatim>\<open>(bool)(x < y)\<close>: the operands are
  left as they are, and the comparison is put in parentheses under a C-style cast to
  the translation of \<^verbatim>\<open>i1\<close>.
\<close>

theorem unsigned_icmp_has_outer_cast:
  "createRValueExprForBinaryOperator (builder True)
      (Instruction 0 (ICmp ICMP_ULT) (IntegerTy 1) [argX, argY])
     = Inr (CStyleCastExpr (Builtin BT_Bool) CK_IntegralCast
              (ParenExpr (BinaryOperator refX refY BO_LT (Builtin BT_UInt))))
   \<and> createRValueExprForBinaryOperator (builder True)
      (Instruction 0 (ICmp ICMP_ULT) (IntegerTy 1) [argX, argY])
     \<noteq> Inr (ParenExpr (BinaryOperator refX refY BO_LT (Builtin BT_UInt)))
   \<and> createRValueExprForBinaryOperator (builder True)
      (Instruction 0 (ICmp ICMP_ULT) (IntegerTy 1) [argX, argY])
     \<noteq> Inr (BinaryOperator refX refY BO_LT (Builtin BT_UInt))"
  by (simp add: example_defs)

text \<open>
  C2, amended. For an \<^verbatim>\<open>icmp\<close> with an unsigned predicate (or \<^verbatim>\<open>eq\<close>, \<^verbatim>\<open>ne\<close>) on two
  integer operands of one width, the builder emits the comparison of the two operands'
  rvalues with no signedness cast on either, in parentheses, under a C-style cast to
  the translated result type of the instruction; where that type is an integer type
  the cast is an integral cast.
\<close>

theorem unsigned_icmp_is_cast_to_result_type:
  assumes "\<not> isSigned p" "getClangBinaryOpKind (ICmp p) = Inr Cmp"
    and "getParenthesizedExprForValue B X = Inr LHS0"
    and "getParenthesizedExprForValue B Y = Inr RHS0"
    and "isIntegerType (getTypePtr (getExprType LHS0))"
    and "isIntegerType (getTypePtr (getExprType RHS0))"
    and "getTypeSize (ASTCtx B) (getTypePtr (getExprType LHS0))
           = getTypeSize (ASTCtx B) (getTypePtr (getExprType RHS0))"
    and "ResType = getQualType B (Instruction n (ICmp p) T [X, Y])"
    and "Comparison = BinaryOperator (toRValue LHS0) (toRValue RHS0) Cmp (getExprType LHS0)"
  shows "createRValueExprForBinaryOperator B (Instruction n (ICmp p) T [X, Y])
           = createCast (ASTCtx B) ResType (ParenExpr Comparison)
       \<and> (isIntegerType (getTypePtr ResType) \<longrightarrow>
            createRValueExprForBinaryOperator B (Instruction n (ICmp p) T [X, Y])
              = Inr (CStyleCastExpr ResType CK_IntegralCast (ParenExpr Comparison)))"
proof -
  have ops: "getCastedBinaryOperands (ASTCtx B) (ICmp p) (toRValue LHS0) (toRValue RHS0)
               = Inr (toRValue LHS0, toRValue RHS0)"
    using assms(1,5,6,7) by (intro unsigned_operands_unchanged) simp_all
  have r: "createRValueExprForBinaryOperator B (Instruction n (ICmp p) T [X, Y])
             = createCast (ASTCtx B) ResType (ParenExpr Comparison)"
    using assms(2,3,4,8,9) ops
    by (simp add: createRValueExprForBinaryOperator.simps getOperand_def)
  moreover have "createCast (ASTCtx B) ResType (ParenExpr Comparison)
                   = Inr (CStyleCastExpr ResType CK_IntegralCast (ParenExpr Comparison))"
    if "isIntegerType (getTypePtr ResType)"
    using that assms(5,9) by (intro createCast_integral) simp_all
  ultimately show ?thesis by simp
qed

theorem unsigned_icmp_is_cast_to_result_type_witness:
  "createRValueExprForBinaryOperator (builder True)
      (Instruction 0 (ICmp ICMP_ULT) (IntegerTy 1) [argX, argY])
     = createCast x86_64 (Builtin BT_Bool)
         (ParenExpr (BinaryOperator refX refY BO_LT (Builtin BT_UInt)))
   \<and> createRValueExprForBinaryOperator (builder True)
      (Instruction 0 (ICmp ICMP_ULT) (IntegerTy 1) [argX, argY])
     = Inr (CStyleCastExpr (Builtin BT_Bool) CK_IntegralCast
              (ParenExpr (BinaryOperator refX refY BO_LT (Builtin BT_UInt))))"
proof -
  have x: "getParenthesizedExprForValue (builder True) argX
             = Inr (DeclRefExpr (ParmVarDecl ''x'' (Builtin BT_UInt)) (Builtin BT_UInt) VK_LValue)"
    by (simp add: example_defs)
  have y: "getParenthesizedExprForValue (builder True) argY
             = Inr (DeclRefExpr (ParmVarDecl ''y'' (Builtin BT_UInt)) (Builtin BT_UInt) VK_LValue)"
    by (simp add: example_defs)
  have h1: "\<not> isSigned ICMP_ULT" by (simp add: isSigned_def)
  have h2: "getClangBinaryOpKind (ICmp ICMP_ULT) = Inr BO_LT" by simp
  have h5: "isIntegerType (getTypePtr (getExprType
              (DeclRefExpr (ParmVarDecl ''x'' (Builtin BT_UInt)) (Builtin BT_UInt) VK_LValue)))"
    by simp
  have h6: "isIntegerType (getTypePtr (getExprType
              (DeclRefExpr (ParmVarDecl ''y'' (Builtin BT_UInt)) (Builtin BT_UInt) VK_LValue)))"
    by simp
  have h7: "getTypeSize (ASTCtx (builder True)) (getTypePtr (getExprType
              (DeclRefExpr (ParmVarDecl ''x'' (Builtin BT_UInt)) (Builtin BT_UInt) VK_LValue)))
            = getTypeSize (ASTCtx (builder True)) (getTypePtr (getExprType
              (DeclRefExpr (ParmVarDecl ''y'' (Builtin BT_UInt)) (Builtin BT_UInt) VK_LValue)))"
    by simp
  have c: "ASTCtx (builder True) = x86_64" by (simp add: builder_def)
  have q: "getQualType (builder True)
             (Instruction 0 (ICmp ICMP_ULT) (IntegerTy 1) [argX, argY]) = Builtin BT_Bool"
    by (simp add: builder_def)
  have rx: "toRValue (DeclRefExpr (ParmVarDecl ''x'' (Builtin BT_UInt)) (Builtin BT_UInt) VK_LValue)
              = refX"
    by (simp add: toRValue_def refX_def)
  have ry: "toRValue (DeclRefExpr (ParmVarDecl ''y'' (Builtin BT_UInt)) (Builtin BT_UInt) VK_LValue)
              = refY"
    by (simp add: toRValue_def refY_def)
  have ty: "getExprType
              (DeclRefExpr (ParmVarDecl ''x'' (Builtin BT_UInt)) (Builtin BT_UInt) VK_LValue)
              = Builtin BT_UInt"
    by simp
  have b: "isIntegerType (getTypePtr (Builtin BT_Bool))" by simp
  from unsigned_icmp_is_cast_to_result_type [OF h1 h2 x y h5 h6 h7 refl refl,
      of 0 "IntegerTy 1"]
  show ?thesis unfolding c q rx ry ty using b by blast
qed

subsection \<open>Literals\<close>

lemma getExprForValue_ConstantInt:
  "getExprForValue B (ConstantInt w v) = literalFromConstantInt B (ConstantInt w v) w v"
  by (simp add: getExprForValue.simps getLiteralFromConstant.simps)

lemma getZExtValue_wide:
  "64 < w \<Longrightarrow> getZExtValue ndebug w v =
     (if \<not> ndebug \<and> \<not> v < 2 ^ 64 then Inl AssertionFailure else Inr (v mod 2 ^ 64))"
  by (simp add: getZExtValue_def)

lemma APInt_64: "APInt 64 v s = v mod 2 ^ 64"
  by (simp add: APInt_def)

text \<open>
  C4, as stated, fails where LLVM's assertions are compiled in: a 128-bit constant
  that does not fit in 64 bits stops at the assertion of \<^verbatim>\<open>getZExtValue\<close>, and no
  literal is emitted.
\<close>

theorem int128_literal_asserts_when_wide:
  "getExprForValue (builder False) (ConstantInt 128 (2 ^ 64)) = Inl AssertionFailure"
  by (simp add: getExprForValue_ConstantInt literalFromConstantInt_def Let_def
      getZExtValue_def builder_def)

text \<open>
  C4, amended. Let the translated type of a 128-bit constant be \<^verbatim>\<open>unsigned __int128\<close>
  or \<^verbatim>\<open>__int128\<close>. If the value fits in 64 bits, or LLVM's assertions are compiled out,
  the expression factory emits the integer literal of width 64 that holds the low 64
  bits of the value, typed \<^verbatim>\<open>unsigned long long\<close> or \<^verbatim>\<open>long long\<close> respectively;
  otherwise the constant is an assertion failure. No 128-bit literal is emitted.
\<close>

theorem int128_literal_narrowed:
  assumes "getTypePtr (getQualType B (ConstantInt 128 v)) = Builtin k"
    and "k = BT_UInt128 \<or> k = BT_Int128"
  shows "getExprForValue B (ConstantInt 128 v) =
           (if \<not> NDEBUG B \<and> \<not> v < 2 ^ 64 then Inl AssertionFailure
            else Inr (IntegerLiteral 64 (v mod 2 ^ 64)
                        (Builtin (if k = BT_UInt128 then BT_ULongLong else BT_LongLong))))"
proof -
  have z: "getZExtValue (NDEBUG B) 128 v =
             (if \<not> NDEBUG B \<and> \<not> v < 2 ^ 64 then Inl AssertionFailure else Inr (v mod 2 ^ 64))"
    by (rule getZExtValue_wide) simp
  have m: "APInt 64 (v mod 2 ^ 64) s = v mod 2 ^ 64" "v < 2 ^ 64 \<Longrightarrow> APInt 64 v s = v" for s
    unfolding APInt_64 by simp_all
  from assms(2) show ?thesis
  proof
    assume "k = BT_UInt128"
    with assms(1) show ?thesis
      unfolding getExprForValue_ConstantInt literalFromConstantInt_def Let_def z
      by (simp add: m del: power_numeral)
  next
    assume "k = BT_Int128"
    with assms(1) show ?thesis
      unfolding getExprForValue_ConstantInt literalFromConstantInt_def Let_def z
      by (simp add: m del: power_numeral)
  qed
qed

theorem int128_literal_narrowed_witness:
  "getExprForValue (builder True) (ConstantInt 128 (2 ^ 64 + 5))
     = Inr (IntegerLiteral 64 5 (Builtin BT_ULongLong))
   \<and> getExprForValue (builder False) (ConstantInt 128 7)
     = Inr (IntegerLiteral 64 7 (Builtin BT_ULongLong))"
  using int128_literal_narrowed [of "builder True" "2 ^ 64 + 5" BT_UInt128]
    int128_literal_narrowed [of "builder False" 7 BT_UInt128]
  by (simp add: builder_def)

text \<open>
  C10, as stated, fails where LLVM's assertions are compiled out: the
  \<^verbatim>\<open>cast<ConstantInt>\<close> checks nothing there, and \<^verbatim>\<open>ptrtoint\<close> of the global \<^verbatim>\<open>@g\<close> is
  no failure but the reference to the declaration of \<^verbatim>\<open>g\<close>.
\<close>

theorem constant_cast_of_global_without_assertions:
  "getExprForValue (builderG True) (ConstantExpr PtrToInt (IntegerTy 64) [globalG])
     = Inr (DeclRefExpr (VarDecl ''g'' (Builtin BT_UChar)) (Builtin BT_UChar) VK_LValue)"
  by (simp add: getExprForValue.simps getLiteralFromConstant.simps getOperand_def
      builderG_def builder_def globalG_def)

text \<open>
  C10, amended. For a constant expression whose opcode is one of \<^verbatim>\<open>trunc\<close>, \<^verbatim>\<open>zext\<close>,
  \<^verbatim>\<open>sext\<close>, \<^verbatim>\<open>inttoptr\<close>, \<^verbatim>\<open>ptrtoint\<close> and \<^verbatim>\<open>bitcast\<close>, the expression factory returns
  what it returns for the operand, with no cast around it, when the operand is a
  constant integer or LLVM's assertions are compiled out; with the assertions
  compiled in, an operand of any other kind fails the \<^verbatim>\<open>cast<ConstantInt>\<close>.
\<close>

theorem constant_cast_returns_operand_expr:
  assumes "opc \<in> {Trunc, ZExt, SExt, IntToPtr, PtrToInt, BitCast}"
  shows "getExprForValue B (ConstantExpr opc T (Op # rest)) =
           (if isConstantInt Op \<or> NDEBUG B then getExprForValue B Op
            else Inl AssertionFailure)
       \<and> getLiteralFromConstant B (ConstantExpr opc T (Op # rest)) =
           (if isConstantInt Op \<or> NDEBUG B then getExprForValue B Op
            else Inl AssertionFailure)"
proof -
  have l: "getLiteralFromConstant B (ConstantExpr opc T (Op # rest)) =
             (if isConstantInt Op \<or> NDEBUG B then getExprForValue B Op
              else Inl AssertionFailure)"
    using assms by (subst getLiteralFromConstant.simps) (simp add: getOperand_def)
  moreover have "getExprForValue B (ConstantExpr opc T (Op # rest))
                   = getLiteralFromConstant B (ConstantExpr opc T (Op # rest))"
    by (subst getExprForValue.simps) simp
  ultimately show ?thesis by simp
qed

theorem constant_cast_returns_operand_expr_witness:
  "getExprForValue (builder False)
      (ConstantExpr IntToPtr (PointerTy (IntegerTy 8)) [ConstantInt 64 4096])
     = Inr (IntegerLiteral 64 4096 (Builtin BT_ULong))
   \<and> getExprForValue (builder False) (ConstantInt 64 4096)
     = Inr (IntegerLiteral 64 4096 (Builtin BT_ULong))
   \<and> getExprForValue (builderG False) (ConstantExpr PtrToInt (IntegerTy 64) [globalG])
     = Inl AssertionFailure
   \<and> getExprForValue (builderG True) (ConstantExpr BitCast (PointerTy (IntegerTy 32)) [globalG])
     = getExprForValue (builderG True) globalG
   \<and> getExprForValue (builderG True) globalG
     = Inr (DeclRefExpr (VarDecl ''g'' (Builtin BT_UChar)) (Builtin BT_UChar) VK_LValue)"
proof -
  have c: "getExprForValue (builder False) (ConstantInt 64 4096)
             = Inr (IntegerLiteral 64 4096 (Builtin BT_ULong))"
    by (simp add: getExprForValue_ConstantInt literalFromConstantInt_def Let_def
        getZExtValue_def APInt_def getIntWidth_def builder_def x86_64_def)
  have g: "getExprForValue (builderG True) globalG
             = Inr (DeclRefExpr (VarDecl ''g'' (Builtin BT_UChar)) (Builtin BT_UChar) VK_LValue)"
    by (simp add: getExprForValue.simps builderG_def builder_def globalG_def)
  have n: "\<not> isConstantInt globalG" "NDEBUG (builderG True)" "\<not> NDEBUG (builderG False)"
    by (simp_all add: globalG_def builderG_def builder_def)
  from constant_cast_returns_operand_expr [of IntToPtr "builder False"
      "PointerTy (IntegerTy 8)" "ConstantInt 64 4096" "[]"]
    constant_cast_returns_operand_expr [of PtrToInt "builderG False"
      "IntegerTy 64" globalG "[]"]
    constant_cast_returns_operand_expr [of BitCast "builderG True"
      "PointerTy (IntegerTy 32)" globalG "[]"]
    c g n
  show ?thesis by simp
qed

end
